theory Spec2Isabelle
  imports Complex_Main
begin

section \<open>Showdown win-rate checker: a shallow embedding\<close>

text \<open>
  The repository resolves a date range to a block range by binary search over block
  timestamps, fetches the \<open>GameResultEvent\<close> logs of that range in spans of at most
  100,000 blocks, removes duplicates, decodes the logs into rows and computes a player's
  win/loss statistics. It exists in two variants: a server route (\<open>pages/api/eth.ts\<close>,
  function \<open>handler\<close>) with a thin page in front of it, and a single-page variant that
  does everything in the browser (\<open>handleRun\<close>).

  Conventions of the embedding:
  \<^item> JavaScript numbers are IEEE-754 doubles. The numbers of this program that matter
    are integers: an \<open>int\<close> holds the value of such a double, and every addition and
    subtraction of the block arithmetic is followed by \<open>dbl\<close>, which rounds the exact
    result to the nearest double, ties to even, as the machine does. Halving a double and
    \<open>Math.floor\<close> are exact, so \<open>Math.floor(x / 2)\<close> is \<open>x div 2\<close>. Comparisons are exact.
    Counters of attempts and array indices stay far below \<open>2^53\<close> and are \<open>nat\<close>.
  \<^item> A loop of the block arithmetic may fail to advance once rounding sets in. Such a
    loop is a partial function into \<open>option\<close>: \<open>None\<close> is a call that never returns,
    and it is passed on by everything that waits for the call.
  \<^item> The environment gives a block as \<open>getBlockByTag\<close> has parsed it, so \<open>num\<close> and
    \<open>ts\<close> of a block and the \<open>blockNumber\<close> of a log are the numbers that \<open>parseInt\<close>
    yields. The \<open>logIndex\<close> of a log is held as the quantity on the wire, and
    \<open>parseInt16\<close> turns it into a number where the key of the log is built. A quantity
    that does not parse (\<open>NaN\<close>) is outside the model, and so is a number of the block
    arithmetic beyond the largest double.
  \<^item> Strings are \<open>char list\<close>; \<open>trim\<close> and \<open>toLowerCase\<close> are modelled on ASCII.
  \<^item> A thrown exception is the \<open>Inl\<close> side of a sum; \<open>await\<close> is sequencing.
  \<^item> The network is an explicit environment: what \<open>fetch\<close> answers to the n-th
    attempt of one call for the retry loop, and what the retrying client finally
    returns for a request everywhere above it.
\<close>

subsection \<open>Data model\<close>

record span =
  "from" :: int
  to :: int

record blockref =
  num :: int
  ts :: int

text \<open>
  A raw log entry of \<open>eth_getLogs\<close>. The field \<open>blockNumber\<close> of the source is called
  \<open>logBlockNumber\<close> here, because the decoded row has a field \<open>blockNumber\<close> as well.
  \<open>logIndex\<close> is the quantity that the hexadecimal string of the entry denotes.
\<close>

record rawlog =
  transactionHash :: string
  logIndex :: nat
  logBlockNumber :: int
  topics :: "string list"
  data :: string

record row =
  blockNumber :: int
  txHash :: string
  gameNumber :: nat
  gameId :: string
  startedAt :: string
  winningPlayer :: string
  winningClasses :: string
  losingPlayer :: string
  losingClasses :: string
  gameLength :: string
  endReason :: string

datatype json =
    JNull
  | JBool bool
  | JNum int
  | JStr string
  | JArr "json list"
  | JObj "(string \<times> json) list"

datatype rpc_error =
    RpcHttp nat
  | RpcBatchError json
  | RpcError json
  | FetchFailed
  | JsonFailed
  | RpcFailedAfterRetries
  | BlockNotFound

definition MAX_SPAN :: int where
  "MAX_SPAN = 100000"

subsection \<open>Numbers\<close>

text \<open>
  Every integer up to \<open>2^53\<close> in magnitude is a double. From there on the doubles are
  \<open>spacing\<close> apart: \<open>2\<close> up to \<open>2^54\<close>, \<open>4\<close> up to \<open>2^55\<close>, and so on. \<open>dbl x\<close> is the
  multiple of the spacing nearest to \<open>x\<close>, and of two that are equally near the one
  whose quotient by the spacing, the significand, is even.
\<close>

definition two53 :: int where
  "two53 = 9007199254740992"

function spacing :: "nat \<Rightarrow> nat" where
  "spacing m = (if m < 9007199254740992 then 1 else 2 * spacing (m div 2))"
  by pat_completeness auto
termination
  by (relation "measure (\<lambda>m. m)") auto

declare spacing.simps [simp del]

definition dbl :: "int \<Rightarrow> int" where
  "dbl x =
     (let u = int (spacing (nat \<bar>x\<bar>)); q = x div u; r = x mod u
      in if 2 * r < u then q * u
         else if u < 2 * r then (q + 1) * u
         else if even q then q * u else (q + 1) * u)"

subsection \<open>The retrying RPC client (\<open>rpc\<close>, \<open>rpcCallWithRetry\<close>)\<close>

text \<open>
  One call of \<open>fetch\<close> either throws (a network exception) or yields a response with a
  status and a body; \<open>res.json()\<close> throws when the body is not JSON, which is the body
  \<open>None\<close>.
\<close>

datatype fetch_outcome =
    FetchThrows
  | Response nat "json option"

text \<open>JavaScript truthiness of a parsed JSON value.\<close>

fun truthy :: "json \<Rightarrow> bool" where
  "truthy JNull = False"
| "truthy (JBool b) = b"
| "truthy (JNum n) = (n \<noteq> 0)"
| "truthy (JStr s) = (s \<noteq> [])"
| "truthy (JArr xs) = True"
| "truthy (JObj kvs) = True"

text \<open>
  Property access \<open>x.name\<close> on a non-null value: an own property of an object (the last
  occurrence of a repeated key wins in \<open>JSON.parse\<close>), \<open>undefined\<close> otherwise.
\<close>

fun property :: "string \<Rightarrow> json \<Rightarrow> json option" where
  "property name (JObj kvs) = map_of (rev kvs) name"
| "property name other = None"

text \<open>The test \<open>x && x.error\<close>.\<close>

definition has_error :: "json \<Rightarrow> bool" where
  "has_error x =
     (truthy x \<and> (case property ''error'' x of None \<Rightarrow> False | Some e \<Rightarrow> truthy e))"

definition res_ok :: "nat \<Rightarrow> bool" where
  "res_ok status = (200 \<le> status \<and> status \<le> 299)"

text \<open>
  A parsed response without a truthy error: for an array no element passes the test
  \<open>x && x.error\<close>, for anything else the value itself does not.
\<close>

definition no_error :: "json \<Rightarrow> bool" where
  "no_error j = (case j of JArr items \<Rightarrow> list_all (\<lambda>x. \<not> has_error x) items | _ \<Rightarrow> \<not> has_error j)"

text \<open>The body of the \<open>try\<close> block: one attempt, from the outcome of its \<open>fetch\<close>.\<close>

definition rpc_attempt :: "fetch_outcome \<Rightarrow> rpc_error + json" where
  "rpc_attempt outcome =
     (case outcome of
        FetchThrows \<Rightarrow> Inl FetchFailed
      | Response status body \<Rightarrow>
          if \<not> res_ok status \<and> (status = 429 \<or> (500 \<le> status \<and> status < 600))
          then Inl (RpcHttp status)
          else (case body of
                  None \<Rightarrow> Inl JsonFailed
                | Some j \<Rightarrow>
                    (case j of
                       JArr items \<Rightarrow>
                         (case find has_error items of
                            Some itemErr \<Rightarrow> Inl (RpcBatchError itemErr)
                          | None \<Rightarrow> Inr j)
                     | _ \<Rightarrow> if has_error j then Inl (RpcError j) else Inr j)))"

text \<open>
  The \<open>for\<close> loop over the attempts. \<open>fetch i\<close> is the outcome of the \<open>fetch\<close> of attempt
  \<open>i\<close>. The result comes with the number of attempts made (each failed attempt sleeps
  and goes round the loop again).
\<close>

function rpc_loop ::
  "(nat \<Rightarrow> fetch_outcome) \<Rightarrow> nat \<Rightarrow> nat \<Rightarrow> rpc_error option \<Rightarrow> (rpc_error + json) \<times> nat" where
  "rpc_loop fetch attempts i lastErr =
     (if i < attempts
      then (case rpc_attempt (fetch i) of
              Inr j \<Rightarrow> (Inr j, Suc i)
            | Inl e \<Rightarrow> rpc_loop fetch attempts (Suc i) (Some e))
      else (Inl (case lastErr of Some e \<Rightarrow> e | None \<Rightarrow> RpcFailedAfterRetries), i))"
  by pat_completeness auto
termination
  by (relation "measure (\<lambda>(fetch, attempts, i, lastErr). attempts - i)") auto

declare rpc_loop.simps [simp del]

definition rpc :: "(nat \<Rightarrow> fetch_outcome) \<Rightarrow> nat \<Rightarrow> (rpc_error + json) \<times> nat" where
  "rpc fetch attempts = rpc_loop fetch attempts 0 None"

subsection \<open>The environment above the client\<close>

text \<open>
  Above the client, a call of \<open>rpc\<close> is a request with a final answer: the error thrown
  after the last attempt, or the parsed response. For \<open>eth_getBlockByNumber\<close> the answer
  is \<open>j?.result\<close> (\<open>None\<close> when it is missing or null); for a batch of \<open>eth_getLogs\<close> it
  is the list of the items' \<open>result\<close> in the order of the response (\<open>None\<close> for a
  \<open>result\<close> that is not an array). \<open>parseLog\<close> is the ABI decoder of the ethers library
  for the one event of the interface.
\<close>

datatype tag = Earliest | Latest | BlockNum int

record getLogs_request =
  req_id :: nat
  req_fromBlock :: int
  req_toBlock :: int

datatype game_args =
  GameResultEvent nat string string string string string string string string

datatype parse_outcome =
    ParseThrows
  | ParseNull
  | Parsed game_args

record rpc_env =
  eth_getBlockByNumber :: "tag \<Rightarrow> rpc_error + blockref option"
  eth_getLogs :: "getLogs_request list \<Rightarrow> rpc_error + rawlog list option list"
  parseLog :: "string list \<Rightarrow> string \<Rightarrow> parse_outcome"

subsection \<open>Block resolver\<close>

definition getBlockByTag :: "rpc_env \<Rightarrow> tag \<Rightarrow> rpc_error + blockref" where
  "getBlockByTag env t =
     (case eth_getBlockByNumber env t of
        Inl e \<Rightarrow> Inl e
      | Inr None \<Rightarrow> Inl BlockNotFound
      | Inr (Some blk) \<Rightarrow> Inr blk)"

definition getBlockByNumber :: "rpc_env \<Rightarrow> int \<Rightarrow> rpc_error + blockref" where
  "getBlockByNumber env n = getBlockByTag env (BlockNum n)"

definition getEarliest :: "rpc_env \<Rightarrow> rpc_error + blockref" where
  "getEarliest env = getBlockByTag env Earliest"

definition getLatest :: "rpc_env \<Rightarrow> rpc_error + blockref" where
  "getLatest env = getBlockByTag env Latest"

text \<open>
  The two \<open>while (lo < hi)\<close> searches. \<open>lower_mid\<close> is
  \<open>lo + Math.floor((hi - lo) / 2)\<close> and \<open>upper_mid\<close> is
  \<open>lo + Math.floor((hi - lo + 1) / 2)\<close>, each sum and difference rounded. Each search
  returns the final \<open>lo\<close> and \<open>hi\<close> and the number of iterations it made (one block
  fetch each); the functions return the final \<open>lo\<close>.
\<close>

definition lower_mid :: "int \<Rightarrow> int \<Rightarrow> int" where
  "lower_mid lo hi = dbl (lo + dbl (hi - lo) div 2)"

definition upper_mid :: "int \<Rightarrow> int \<Rightarrow> int" where
  "upper_mid lo hi = dbl (lo + dbl (dbl (hi - lo) + 1) div 2)"

partial_function (option) afterLoop ::
  "rpc_env \<Rightarrow> int \<Rightarrow> int \<Rightarrow> int \<Rightarrow> nat \<Rightarrow> (rpc_error + (int \<times> int \<times> nat)) option" where
  "afterLoop env targetTs lo hi n =
     (if lo < hi
      then (let mid = lower_mid lo hi
            in case getBlockByNumber env mid of
                 Inl e \<Rightarrow> Some (Inl e)
               | Inr b \<Rightarrow>
                   if ts b \<ge> targetTs
                   then afterLoop env targetTs lo mid (Suc n)
                   else afterLoop env targetTs (dbl (mid + 1)) hi (Suc n))
      else Some (Inr (lo, hi, n)))"

partial_function (option) beforeLoop ::
  "rpc_env \<Rightarrow> int \<Rightarrow> int \<Rightarrow> int \<Rightarrow> nat \<Rightarrow> (rpc_error + (int \<times> int \<times> nat)) option" where
  "beforeLoop env targetTs lo hi n =
     (if lo < hi
      then (let mid = upper_mid lo hi
            in case getBlockByNumber env mid of
                 Inl e \<Rightarrow> Some (Inl e)
               | Inr b \<Rightarrow>
                   if ts b \<le> targetTs
                   then beforeLoop env targetTs mid hi (Suc n)
                   else beforeLoop env targetTs lo (dbl (mid - 1)) (Suc n))
      else Some (Inr (lo, hi, n)))"

definition findBlockAtOrAfter :: "rpc_env \<Rightarrow> int \<Rightarrow> (rpc_error + int) option" where
  "findBlockAtOrAfter env targetTs =
     (case getEarliest env of
        Inl e \<Rightarrow> Some (Inl e)
      | Inr earliest \<Rightarrow>
          (case getLatest env of
             Inl e \<Rightarrow> Some (Inl e)
           | Inr latest \<Rightarrow>
               if targetTs \<le> ts earliest then Some (Inr (num earliest))
               else if targetTs > ts latest then Some (Inr (num latest))
               else map_option (map_sum (\<lambda>e. e) fst)
                      (afterLoop env targetTs (num earliest) (num latest) 0)))"

definition findBlockAtOrBefore :: "rpc_env \<Rightarrow> int \<Rightarrow> (rpc_error + int) option" where
  "findBlockAtOrBefore env targetTs =
     (case getEarliest env of
        Inl e \<Rightarrow> Some (Inl e)
      | Inr earliest \<Rightarrow>
          (case getLatest env of
             Inl e \<Rightarrow> Some (Inl e)
           | Inr latest \<Rightarrow>
               if targetTs < ts earliest then Some (Inr (num earliest))
               else if targetTs \<ge> ts latest then Some (Inr (num latest))
               else map_option (map_sum (\<lambda>e. e) fst)
                      (beforeLoop env targetTs (num earliest) (num latest) 0)))"

subsection \<open>Partition of a block range (\<open>buildRanges\<close>)\<close>

text \<open>
  \<open>s + MAX_SPAN - 1\<close> is two operations, each rounded, and so is \<open>e + 1\<close>.
\<close>

partial_function (option) buildRanges_loop :: "int \<Rightarrow> int \<Rightarrow> span list \<Rightarrow> span list option" where
  "buildRanges_loop s toBlock ranges =
     (if s \<le> toBlock
      then (let e = min (dbl (dbl (s + MAX_SPAN) - 1)) toBlock
            in buildRanges_loop (dbl (e + 1)) toBlock (ranges @ [\<lparr>from = s, to = e\<rparr>]))
      else Some ranges)"

definition buildRanges :: "int \<Rightarrow> int \<Rightarrow> span list option" where
  "buildRanges fromBlock toBlock = buildRanges_loop fromBlock toBlock []"


subsection \<open>Fetching the logs in batches\<close>

text \<open>\<open>item.result\<close> of each item of a batch response, appended in response order.\<close>

definition item_logs :: "rawlog list option \<Rightarrow> rawlog list" where
  "item_logs item = (case item of Some logs \<Rightarrow> logs | None \<Rightarrow> [])"

text \<open>\<open>chunk.map((r, idx) => ...)\<close>: the requests of one batch, \<open>i\<close> the index of its first span.\<close>

definition batch_of :: "nat \<Rightarrow> span list \<Rightarrow> getLogs_request list" where
  "batch_of i chunk =
     map (\<lambda>(idx, r). \<lparr>req_id = i + idx + 100, req_fromBlock = from r, req_toBlock = to r\<rparr>)
       (enumerate 0 chunk)"

text \<open>
  The loop \<open>for (i = 0; i < ranges.length; i += batchSize)\<close> of both variants. The result
  comes with the batches that were sent, in order. The server route calls it with the
  constant \<open>BATCH\<close>; the page clamps its \<open>batchSize\<close> to \<open>1..8\<close> before the call, so
  the step is positive in both. With a step of \<open>0\<close>, which neither caller passes, the
  source's loop would never advance; the recursion stops there instead (the test
  \<open>0 < batchSize\<close>), and nothing below is stated for that case. The progress callback and
  the pause between batches of the page have no effect on the result and are left out.
\<close>

function fetchLoop ::
  "rpc_env \<Rightarrow> nat \<Rightarrow> span list \<Rightarrow> nat \<Rightarrow> rawlog list \<Rightarrow> getLogs_request list list
     \<Rightarrow> (rpc_error + rawlog list) \<times> getLogs_request list list" where
  "fetchLoop env batchSize ranges i allLogs sent =
     (if i < length ranges \<and> 0 < batchSize
      then (let chunk = take batchSize (drop i ranges);
                batch = batch_of i chunk
            in case eth_getLogs env batch of
                 Inl e \<Rightarrow> (Inl e, sent @ [batch])
               | Inr resp \<Rightarrow>
                   fetchLoop env batchSize ranges (i + batchSize)
                     (allLogs @ concat (map item_logs resp)) (sent @ [batch]))
      else (Inr allLogs, sent))"
  by pat_completeness auto
termination
  by (relation "measure (\<lambda>(env, batchSize, ranges, i, allLogs, sent). length ranges - i)") auto

declare fetchLoop.simps [simp del]

definition BATCH :: nat where
  "BATCH = 8"

subsection \<open>Deduplication\<close>

text \<open>The decimal digits of a natural number.\<close>

definition digit_char :: "nat \<Rightarrow> char" where
  "digit_char d = char_of (48 + d)"

function decimal :: "nat \<Rightarrow> string" where
  "decimal n = (if n < 10 then [digit_char n] else decimal (n div 10) @ [digit_char (n mod 10)])"
  by pat_completeness auto
termination
  by (relation "measure (\<lambda>n. n)") auto

declare decimal.simps [simp del]

text \<open>
  \<open>parseInt(q, 16)\<close> of a hexadecimal quantity: the double nearest to the quantity, and
  \<open>Infinity\<close> from \<open>2^1024 - 2^970\<close> on, where the nearest double would be \<open>2^1024\<close>.
\<close>

datatype jsnumber = Num nat | Infinity

definition parseInt16 :: "nat \<Rightarrow> jsnumber" where
  "parseInt16 q = (if dbl (int q) < 2 ^ 1024 then Num (nat (dbl (int q))) else Infinity)"

text \<open>
  \<open>String(x)\<close> of such a number. An integer up to \<open>2^53\<close> is printed with all its digits.
  Above, the language prints the shortest digit string \<open>s\<close> that, followed by zeros up to
  \<open>n\<close> digits in all, reads back as the same double (the nearest to the number if there
  are several, the even one of two equally near), with the zeros written out for
  \<open>n \<le> 21\<close> and in exponent notation beyond. \<open>candidates x k\<close> are the pairs \<open>(s, n)\<close>
  with \<open>k\<close> digits in \<open>s\<close> that read back as \<open>x\<close>; seventeen digits always suffice.
\<close>

definition candidates :: "nat \<Rightarrow> nat \<Rightarrow> (nat \<times> nat) list" where
  "candidates x k =
     [(s, n). n \<leftarrow> [length (decimal x) - 1, length (decimal x), length (decimal x) + 1], k \<le> n,
              s \<leftarrow> [x div 10 ^ (n - k), x div 10 ^ (n - k) + 1],
              10 ^ (k - 1) \<le> s, s < 10 ^ k, dbl (int (s * 10 ^ (n - k))) = int x]"

definition distance :: "nat \<Rightarrow> nat \<Rightarrow> nat \<times> nat \<Rightarrow> int" where
  "distance x k c = \<bar>int (fst c * 10 ^ (snd c - k)) - int x\<bar>"

definition closer :: "nat \<Rightarrow> nat \<Rightarrow> nat \<times> nat \<Rightarrow> nat \<times> nat \<Rightarrow> nat \<times> nat" where
  "closer x k a b =
     (if distance x k a < distance x k b then a
      else if distance x k b < distance x k a then b
      else if even (fst a) then a else b)"

definition shortest :: "nat \<Rightarrow> nat \<times> nat" where
  "shortest x =
     (case filter (\<lambda>k. candidates x k \<noteq> []) [1..<18] of
        [] \<Rightarrow> (x, length (decimal x))
      | k # ks \<Rightarrow> foldl (closer x k) (hd (candidates x k)) (tl (candidates x k)))"

definition numberToString :: "jsnumber \<Rightarrow> string" where
  "numberToString v =
     (case v of
        Infinity \<Rightarrow> ''Infinity''
      | Num x \<Rightarrow>
          if int x \<le> two53 then decimal x
          else (let (s, n) = shortest x; ds = decimal s; k = length ds
                in if n \<le> 21 then ds @ replicate (n - k) (CHR ''0'')
                   else (if k = 1 then ds else hd ds # CHR ''.'' # tl ds) @ ''e+'' @ decimal (n - 1)))"

text \<open>The template string \<open>`${log.transactionHash}-${parseInt(log.logIndex, 16)}`\<close>.\<close>

definition logKey :: "rawlog \<Rightarrow> string" where
  "logKey entry = transactionHash entry @ ''-'' @ numberToString (parseInt16 (logIndex entry))"

text \<open>
  \<open>Map.prototype.set\<close> on a \<open>Map\<close>, which keeps its entries in the order in which their
  keys were first inserted: a known key keeps its place and takes the new value, a new
  key goes to the end.
\<close>

fun map_set :: "'k \<Rightarrow> 'v \<Rightarrow> ('k \<times> 'v) list \<Rightarrow> ('k \<times> 'v) list" where
  "map_set k v [] = [(k, v)]"
| "map_set k v ((k', v') # m) = (if k' = k then (k, v) # m else (k', v') # map_set k v m)"

text \<open>The \<open>for\<close> loop that fills \<open>uniq\<close>, and \<open>Array.from(uniq.values())\<close>.\<close>

definition uniq_of :: "rawlog list \<Rightarrow> (string \<times> rawlog) list" where
  "uniq_of allLogs = foldl (\<lambda>uniq entry. map_set (logKey entry) entry uniq) [] allLogs"

text \<open>The same loop, started from a map that already has entries.\<close>

definition fill :: "(string \<times> rawlog) list \<Rightarrow> rawlog list \<Rightarrow> (string \<times> rawlog) list" where
  "fill m allLogs = foldl (\<lambda>uniq entry. map_set (logKey entry) entry uniq) m allLogs"

definition dedup :: "rawlog list \<Rightarrow> rawlog list" where
  "dedup allLogs = map snd (uniq_of allLogs)"


subsection \<open>Decoding\<close>

text \<open>
  The callback of \<open>logs.map\<close> in the server route, and \<open>decodeGameResult\<close> of the page.
  Both return \<open>null\<close> when \<open>parseLog\<close> throws; when it returns \<open>null\<close> the route returns
  \<open>null\<close> at once and the page throws on \<open>parsed.args\<close> inside the \<open>try\<close>, with the same
  result. A parse that succeeds yields the nine arguments of the event, in the order of
  the ABI. \<open>Number(gameNumber.toString())\<close> is the number itself (its rounding to a double
  beyond \<open>2^53\<close> is outside the model) and \<open>String\<close> of a string is that string.
\<close>

definition decodeGameResult :: "(string list \<Rightarrow> string \<Rightarrow> parse_outcome) \<Rightarrow> rawlog \<Rightarrow> row option" where
  "decodeGameResult parse entry =
     (case parse (topics entry) (data entry) of
        ParseThrows \<Rightarrow> None
      | ParseNull \<Rightarrow> None
      | Parsed (GameResultEvent gameNumber' gameId' startedAt' winningPlayer' winningClasses'
                  losingPlayer' losingClasses' gameLength' endReason') \<Rightarrow>
          Some \<lparr>blockNumber = logBlockNumber entry,
                txHash = transactionHash entry,
                gameNumber = gameNumber',
                gameId = gameId',
                startedAt = startedAt',
                winningPlayer = winningPlayer',
                winningClasses = winningClasses',
                losingPlayer = losingPlayer',
                losingClasses = losingClasses',
                gameLength = gameLength',
                endReason = endReason'\<rparr>)"

text \<open>\<open>.filter(Boolean)\<close> on an array of rows and \<open>null\<close>s.\<close>

definition filterBoolean :: "'a option list \<Rightarrow> 'a list" where
  "filterBoolean xs = map the (filter (\<lambda>x. x \<noteq> None) xs)"

definition decodeAll :: "(string list \<Rightarrow> string \<Rightarrow> parse_outcome) \<Rightarrow> rawlog list \<Rightarrow> row list" where
  "decodeAll parse logs = filterBoolean (map (decodeGameResult parse) logs)"

subsection \<open>The two pipelines\<close>

record request =
  startTs :: "int option"
  endTs :: "int option"

datatype api_response =
    RespOk "row list"
  | RespError rpc_error

text \<open>
  Both pipelines start with the same four \<open>await\<close>s: the earliest and the latest block,
  then the two searches. They differ in when a timestamp is searched for: the server
  route tests \<open>typeof startTs === 'number' && startTs > 0\<close>, the page tests \<open>startTs\<close>
  for truthiness (a number other than \<open>0\<close>). \<open>None\<close> as a timestamp is one that is not
  there. \<open>resolve\<close> takes that test as \<open>search\<close>. A search that never returns leaves the
  resolution, and the pipeline, without a result.
\<close>

definition resolve ::
  "(int \<Rightarrow> bool) \<Rightarrow> rpc_env \<Rightarrow> request \<Rightarrow> (rpc_error + (int \<times> int)) option" where
  "resolve search env req =
     (case getEarliest env of
        Inl e \<Rightarrow> Some (Inl e)
      | Inr earliest \<Rightarrow>
          (case getLatest env of
             Inl e \<Rightarrow> Some (Inl e)
           | Inr latest \<Rightarrow>
               (case (case startTs req of
                        Some s \<Rightarrow>
                          if search s then findBlockAtOrAfter env s else Some (Inr (num earliest))
                      | None \<Rightarrow> Some (Inr (num earliest))) of
                  None \<Rightarrow> None
                | Some (Inl e) \<Rightarrow> Some (Inl e)
                | Some (Inr fromBlock) \<Rightarrow>
                    (case (case endTs req of
                             Some s \<Rightarrow>
                               if search s then findBlockAtOrBefore env s else Some (Inr (num latest))
                           | None \<Rightarrow> Some (Inr (num latest))) of
                       None \<Rightarrow> None
                     | Some (Inl e) \<Rightarrow> Some (Inl e)
                     | Some (Inr toBlock) \<Rightarrow> Some (Inr (fromBlock, toBlock))))))"

text \<open>
  \<open>handler\<close> of the server route. The second component is the list of \<open>eth_getLogs\<close>
  batches that were sent.
\<close>

definition handler ::
  "rpc_env \<Rightarrow> request \<Rightarrow> (api_response \<times> getLogs_request list list) option" where
  "handler env req =
     (case resolve (\<lambda>s. s > 0) env req of
        None \<Rightarrow> None
      | Some (Inl e) \<Rightarrow> Some (RespError e, [])
      | Some (Inr (fromBlock, toBlock)) \<Rightarrow>
          if toBlock < fromBlock then Some (RespOk [], [])
          else (case buildRanges fromBlock toBlock of
                  None \<Rightarrow> None
                | Some ranges \<Rightarrow>
                    (case fetchLoop env BATCH ranges 0 [] [] of
                       (Inl e, sent) \<Rightarrow> Some (RespError e, sent)
                     | (Inr allLogs, sent) \<Rightarrow>
                         Some (RespOk (decodeAll (parseLog env) (dedup allLogs)), sent))))"

text \<open>
  \<open>handleRun\<close> of the page: the state it leaves in \<open>rows\<close> and \<open>error\<close> (both reset at the
  start). \<open>Array.prototype.sort\<close> is a stable sort, and the comparator
  \<open>a.blockNumber - b.blockNumber\<close> orders by block number, so the call is the stable
  sort by that key.
\<close>

definition clampBatchSize :: "nat \<Rightarrow> nat" where
  "clampBatchSize batchSize = max 1 (min 8 (if batchSize = 0 then 1 else batchSize))"

definition fetchLogsBatched ::
  "rpc_env \<Rightarrow> int \<Rightarrow> int \<Rightarrow> nat \<Rightarrow> ((rpc_error + rawlog list) \<times> getLogs_request list list) option" where
  "fetchLogsBatched env fromBlock toBlock batchSize =
     (case buildRanges fromBlock toBlock of
        None \<Rightarrow> None
      | Some ranges \<Rightarrow>
          (case fetchLoop env batchSize ranges 0 [] [] of
             (Inl e, sent) \<Rightarrow> Some (Inl e, sent)
           | (Inr allLogs, sent) \<Rightarrow> Some (Inr (dedup allLogs), sent)))"

record ui_state =
  ui_rows :: "row list"
  ui_error :: "rpc_error option"

definition handleRun ::
  "rpc_env \<Rightarrow> request \<Rightarrow> nat \<Rightarrow> (ui_state \<times> getLogs_request list list) option" where
  "handleRun env req batchSize =
     (case resolve (\<lambda>s. s \<noteq> 0) env req of
        None \<Rightarrow> None
      | Some (Inl e) \<Rightarrow> Some (\<lparr>ui_rows = [], ui_error = Some e\<rparr>, [])
      | Some (Inr (fromBlock, toBlock)) \<Rightarrow>
          if toBlock < fromBlock then Some (\<lparr>ui_rows = [], ui_error = None\<rparr>, [])
          else (case fetchLogsBatched env fromBlock toBlock (clampBatchSize batchSize) of
                  None \<Rightarrow> None
                | Some (Inl e, sent) \<Rightarrow> Some (\<lparr>ui_rows = [], ui_error = Some e\<rparr>, sent)
                | Some (Inr logs, sent) \<Rightarrow>
                    Some (\<lparr>ui_rows = sort_key blockNumber (decodeAll (parseLog env) logs),
                           ui_error = None\<rparr>, sent)))"

subsection \<open>Aggregation\<close>

definition isWhiteSpace :: "char \<Rightarrow> bool" where
  "isWhiteSpace c = (of_char c \<in> {9, 10, 11, 12, 13, 32 :: nat})"

definition trim :: "string \<Rightarrow> string" where
  "trim s = rev (dropWhile isWhiteSpace (rev (dropWhile isWhiteSpace s)))"

definition lowerChar :: "char \<Rightarrow> char" where
  "lowerChar c = (if 65 \<le> (of_char c :: nat) \<and> (of_char c :: nat) \<le> 90
                  then char_of (of_char c + 32 :: nat) else c)"

definition toLowerCase :: "string \<Rightarrow> string" where
  "toLowerCase s = map lowerChar s"

text \<open>\<open>x.trim().toLowerCase()\<close>.\<close>

definition normalized :: "string \<Rightarrow> string" where
  "normalized s = toLowerCase (trim s)"

record PlayerStats =
  wins :: nat
  losses :: nat
  total :: nat
  winrate :: real

definition stats :: "row list \<Rightarrow> string \<Rightarrow> PlayerStats" where
  "stats rows player =
     (let p = normalized player;
          w = length (filter (\<lambda>r. normalized (winningPlayer r) = p) rows);
          l = length (filter (\<lambda>r. normalized (losingPlayer r) = p) rows);
          t = w + l;
          wr = (if t \<noteq> 0 then real w / real t else 0)
      in \<lparr>wins = w, losses = l, total = t, winrate = wr\<rparr>)"

datatype match_result = W | L

record match_view = row +
  result :: match_result
  opponent :: string

definition filtered :: "row list \<Rightarrow> string \<Rightarrow> match_view list" where
  "filtered rows player =
     (let p = normalized player
      in map (\<lambda>r. row.extend r
                    \<lparr>result = (if normalized (winningPlayer r) = p then W else L),
                     opponent = (if normalized (winningPlayer r) = p
                                 then losingPlayer r else winningPlayer r)\<rparr>)
           (filter (\<lambda>r. normalized (winningPlayer r) = p \<or> normalized (losingPlayer r) = p) rows))"

text \<open>
  The counts as the specification words them: the number of positions of the list that
  hold a record of the given kind.
\<close>

definition count_where :: "('a \<Rightarrow> bool) \<Rightarrow> 'a list \<Rightarrow> nat" where
  "count_where P xs = card {i. i < length xs \<and> P (xs ! i)}"

subsection \<open>The same iterations on exact integers\<close>

text \<open>
  The two searches and the partition once more, on unbounded integers without rounding.
  They are not the program: they are total functions that serve the proofs, which show
  that the program computes what these compute as long as the numbers stay in the range
  where the doubles are exact. No property of the program below is stated in their terms.
\<close>

definition exact_lower_mid :: "int \<Rightarrow> int \<Rightarrow> int" where
  "exact_lower_mid lo hi = lo + (hi - lo) div 2"

definition exact_upper_mid :: "int \<Rightarrow> int \<Rightarrow> int" where
  "exact_upper_mid lo hi = lo + (hi - lo + 1) div 2"

function exact_afterLoop ::
  "rpc_env \<Rightarrow> int \<Rightarrow> int \<Rightarrow> int \<Rightarrow> nat \<Rightarrow> rpc_error + (int \<times> int \<times> nat)" where
  "exact_afterLoop env targetTs lo hi n =
     (if lo < hi
      then (let mid = exact_lower_mid lo hi
            in case getBlockByNumber env mid of
                 Inl e \<Rightarrow> Inl e
               | Inr b \<Rightarrow>
                   if ts b \<ge> targetTs
                   then exact_afterLoop env targetTs lo mid (Suc n)
                   else exact_afterLoop env targetTs (mid + 1) hi (Suc n))
      else Inr (lo, hi, n))"
  by pat_completeness auto
termination
  by (relation "measure (\<lambda>(env, targetTs, lo, hi, n). nat (hi - lo))")
    (auto simp: exact_lower_mid_def)

declare exact_afterLoop.simps [simp del]

function exact_beforeLoop ::
  "rpc_env \<Rightarrow> int \<Rightarrow> int \<Rightarrow> int \<Rightarrow> nat \<Rightarrow> rpc_error + (int \<times> int \<times> nat)" where
  "exact_beforeLoop env targetTs lo hi n =
     (if lo < hi
      then (let mid = exact_upper_mid lo hi
            in case getBlockByNumber env mid of
                 Inl e \<Rightarrow> Inl e
               | Inr b \<Rightarrow>
                   if ts b \<le> targetTs
                   then exact_beforeLoop env targetTs mid hi (Suc n)
                   else exact_beforeLoop env targetTs lo (mid - 1) (Suc n))
      else Inr (lo, hi, n))"
  by pat_completeness auto
termination
  by (relation "measure (\<lambda>(env, targetTs, lo, hi, n). nat (hi - lo))")
    (auto simp: exact_upper_mid_def)

declare exact_beforeLoop.simps [simp del]

function exact_ranges_loop :: "int \<Rightarrow> int \<Rightarrow> span list \<Rightarrow> span list" where
  "exact_ranges_loop s toBlock ranges =
     (if s \<le> toBlock
      then (let e = min (s + MAX_SPAN - 1) toBlock
            in exact_ranges_loop (e + 1) toBlock (ranges @ [\<lparr>from = s, to = e\<rparr>]))
      else ranges)"
  by pat_completeness auto
termination
  by (relation "measure (\<lambda>(s, toBlock, ranges). nat (toBlock - s + 1))")
    (auto simp: MAX_SPAN_def)

declare exact_ranges_loop.simps [simp del]

definition exact_ranges :: "int \<Rightarrow> int \<Rightarrow> span list" where
  "exact_ranges fromBlock toBlock = exact_ranges_loop fromBlock toBlock []"

subsection \<open>Chains with monotonic timestamps\<close>

text \<open>
  A node that serves the blocks \<open>e..l\<close> of a chain whose block \<open>n\<close> has the timestamp
  \<open>T n\<close>, with \<open>T\<close> non-decreasing on \<open>e..l\<close> (ties allowed) and every lookup answered.
\<close>

definition monotonic_chain :: "rpc_env \<Rightarrow> int \<Rightarrow> int \<Rightarrow> (int \<Rightarrow> int) \<Rightarrow> bool" where
  "monotonic_chain env e l T =
     (e \<le> l
      \<and> eth_getBlockByNumber env Earliest = Inr (Some \<lparr>num = e, ts = T e\<rparr>)
      \<and> eth_getBlockByNumber env Latest = Inr (Some \<lparr>num = l, ts = T l\<rparr>)
      \<and> list_all (\<lambda>n. eth_getBlockByNumber env (BlockNum n) = Inr (Some \<lparr>num = n, ts = T n\<rparr>)) [e..l]
      \<and> list_all (\<lambda>m. list_all (\<lambda>n. T m \<le> T n) [m..l]) [e..l])"

subsection \<open>A concrete node\<close>

text \<open>
  A chain of the blocks \<open>0..150000\<close>, two blocks per second from second \<open>1000\<close> on, with
  three logs of the contract. The node answers every request of a batch correctly and
  returns the items of a batch response in the reverse order of the requests, which
  JSON-RPC 2.0 allows. The log of block \<open>7\<close> does not decode.
\<close>

definition demo_ts :: "int \<Rightarrow> int" where
  "demo_ts n = 1000 + n div 2"

definition demo_first :: rawlog where
  "demo_first = \<lparr>transactionHash = ''0xa1'', logIndex = 0, logBlockNumber = 5,
     topics = [''topic0''], data = ''first''\<rparr>"

definition demo_broken :: rawlog where
  "demo_broken = \<lparr>transactionHash = ''0xb2'', logIndex = 3, logBlockNumber = 7,
     topics = [], data = []\<rparr>"

definition demo_second :: rawlog where
  "demo_second = \<lparr>transactionHash = ''0xc3'', logIndex = 1, logBlockNumber = 120000,
     topics = [''topic0''], data = ''second''\<rparr>"

definition demo_logs :: "rawlog list" where
  "demo_logs = [demo_first, demo_broken, demo_second]"

definition demo_parse :: "string list \<Rightarrow> string \<Rightarrow> parse_outcome" where
  "demo_parse tps d =
     (if tps = [] then ParseThrows
      else if d = ''first''
      then Parsed (GameResultEvent 1 ''g-1'' ''t1'' ''Alice'' ''mage'' ''Bob'' ''rogue'' ''300'' ''win'')
      else if d = ''second''
      then Parsed (GameResultEvent 2 ''g-2'' ''t2'' '' bob '' ''rogue'' ''ALICE'' ''mage'' ''200'' ''win'')
      else ParseNull)"

definition demo_env :: rpc_env where
  "demo_env =
     \<lparr>eth_getBlockByNumber =
        (\<lambda>t. case t of
                Earliest \<Rightarrow> Inr (Some \<lparr>num = 0, ts = demo_ts 0\<rparr>)
              | Latest \<Rightarrow> Inr (Some \<lparr>num = 150000, ts = demo_ts 150000\<rparr>)
              | BlockNum n \<Rightarrow>
                  if 0 \<le> n \<and> n \<le> 150000 then Inr (Some \<lparr>num = n, ts = demo_ts n\<rparr>)
                  else Inr None),
      eth_getLogs =
        (\<lambda>batch. Inr (rev (map (\<lambda>q. Some (filter (\<lambda>entry. req_fromBlock q \<le> logBlockNumber entry
                                                   \<and> logBlockNumber entry \<le> req_toBlock q) demo_logs))
                              batch))),
      parseLog = demo_parse\<rparr>"

text \<open>A second copy of the first log of the node, as a later response carries it, with other data.\<close>

definition demo_again :: rawlog where
  "demo_again = \<lparr>transactionHash = ''0xa1'', logIndex = 0, logBlockNumber = 5,
     topics = [''topic0''], data = ''again''\<rparr>"

text \<open>The rows that the two decodable logs of the node decode to.\<close>

definition demo_row1 :: row where
  "demo_row1 = \<lparr>blockNumber = 5, txHash = ''0xa1'', gameNumber = 1, gameId = ''g-1'',
     startedAt = ''t1'', winningPlayer = ''Alice'', winningClasses = ''mage'',
     losingPlayer = ''Bob'', losingClasses = ''rogue'', gameLength = ''300'', endReason = ''win''\<rparr>"

definition demo_row2 :: row where
  "demo_row2 = \<lparr>blockNumber = 120000, txHash = ''0xc3'', gameNumber = 2, gameId = ''g-2'',
     startedAt = ''t2'', winningPlayer = '' bob '', winningClasses = ''rogue'',
     losingPlayer = ''ALICE'', losingClasses = ''mage'', gameLength = ''200'', endReason = ''win''\<rparr>"

text \<open>Match records with a given winner and loser, and the three matches of a small season.\<close>

definition demo_match :: "string \<Rightarrow> string \<Rightarrow> row" where
  "demo_match winner loser = \<lparr>blockNumber = 1, txHash = ''0x01'', gameNumber = 1, gameId = ''g'',
     startedAt = ''t'', winningPlayer = winner, winningClasses = ''mage'',
     losingPlayer = loser, losingClasses = ''rogue'', gameLength = ''60'', endReason = ''win''\<rparr>"

definition demo_matches :: "row list" where
  "demo_matches = [demo_match ''Alice'' ''Bob'', demo_match ''Bob'' ''Alice'', demo_match ''Alice'' ''Carol'']"

subsection \<open>A chain beyond the exact integers\<close>

text \<open>
  A node whose chain is the three blocks \<open>2^53\<close>, \<open>2^53 + 1\<close> and \<open>2^53 + 2\<close>, with the
  timestamps \<open>5\<close>, \<open>6\<close> and \<open>9\<close>; and two logs of one transaction with the log indices
  \<open>2^53\<close> and \<open>2^53 + 1\<close>.
\<close>

definition big_ts :: "int \<Rightarrow> int" where
  "big_ts n = (if n \<le> two53 then 5 else if n = two53 + 1 then 6 else 9)"

definition big_env :: rpc_env where
  "big_env =
     \<lparr>eth_getBlockByNumber =
        (\<lambda>t. case t of
                Earliest \<Rightarrow> Inr (Some \<lparr>num = two53, ts = big_ts two53\<rparr>)
              | Latest \<Rightarrow> Inr (Some \<lparr>num = two53 + 2, ts = big_ts (two53 + 2)\<rparr>)
              | BlockNum n \<Rightarrow>
                  if two53 \<le> n \<and> n \<le> two53 + 2 then Inr (Some \<lparr>num = n, ts = big_ts n\<rparr>)
                  else Inr None),
      eth_getLogs = (\<lambda>batch. Inr (map (\<lambda>q. Some []) batch)),
      parseLog = (\<lambda>tps d. ParseNull)\<rparr>"



subsection \<open>Concrete transports\<close>

text \<open>
  A gateway that answers every attempt with \<open>404\<close> and a JSON body; a node that answers
  in the style of JSON-RPC 1.0, with \<open>error: null\<close> beside the result; and a transport
  that fails four times in four ways (rate limit, server error, network exception, an
  error item in the batch) before it answers.
\<close>

definition fetch_not_found :: "nat \<Rightarrow> fetch_outcome" where
  "fetch_not_found i = Response 404 (Some (JObj [(''message'', JStr ''Not Found'')]))"

definition fetch_error_null :: "nat \<Rightarrow> fetch_outcome" where
  "fetch_error_null i =
     Response 200 (Some (JObj [(''jsonrpc'', JStr ''2.0''), (''id'', JNum 1),
                               (''result'', JStr ''0x10''), (''error'', JNull)]))"

definition flaky_good :: json where
  "flaky_good = JArr [JObj [(''id'', JNum 100), (''result'', JArr [])],
                      JObj [(''id'', JNum 101), (''result'', JArr [])]]"

definition flaky_bad :: json where
  "flaky_bad = JObj [(''id'', JNum 101), (''error'', JObj [(''message'', JStr ''rate limit'')])]"

definition flaky_fetch :: "nat \<Rightarrow> fetch_outcome" where
  "flaky_fetch i =
     (if i = 0 then Response 429 None
      else if i = 1 then Response 503 (Some (JStr ''busy''))
      else if i = 2 then FetchThrows
      else if i = 3 then Response 200 (Some (JArr [JObj [(''id'', JNum 100), (''result'', JArr [])], flaky_bad]))
      else Response 200 (Some flaky_good))"

section \<open>Properties\<close>

subsection \<open>Rounding\<close>

text \<open>
  Up to \<open>2^53\<close> in magnitude nothing is rounded; in the binade from \<open>2^53\<close> to \<open>2^54\<close> a
  number moves by at most one; and \<open>2^53 + 1\<close> rounds down to \<open>2^53\<close>.
\<close>

lemma spacing_small: "m < 9007199254740992 \<Longrightarrow> spacing m = 1"
  by (subst spacing.simps) simp

lemma spacing_binade: "9007199254740992 \<le> m \<Longrightarrow> m < 18014398509481984 \<Longrightarrow> spacing m = 2"
  by (subst spacing.simps) (simp add: spacing_small)

lemma dbl_exact: "\<bar>x\<bar> \<le> two53 \<Longrightarrow> dbl x = x"
proof (cases "\<bar>x\<bar> < two53")
  case True
  then have "spacing (nat \<bar>x\<bar>) = 1" by (intro spacing_small) (simp add: two53_def)
  then show ?thesis by (simp add: dbl_def)
next
  case False
  assume "\<bar>x\<bar> \<le> two53"
  with False have x: "x = two53 \<or> x = - two53" by auto
  then have "spacing (nat \<bar>x\<bar>) = 2" by (intro spacing_binade) (auto simp: two53_def)
  then show ?thesis using x by (auto simp: dbl_def two53_def)
qed

lemma dbl_binade:
  assumes "two53 \<le> x" "x < 2 * two53"
  shows "two53 \<le> dbl x \<and> x - 1 \<le> dbl x \<and> dbl x \<le> x + 1"
proof -
  have u: "spacing (nat \<bar>x\<bar>) = 2" using assms by (intro spacing_binade) (auto simp: two53_def)
  have d: "dbl x = (if x mod 2 = 0 then x else if even (x div 2) then x - 1 else x + 1)"
  proof (cases "x mod 2 = 0")
    case True
    then show ?thesis by (simp add: dbl_def u Let_def) presburger
  next
    case False
    then have r: "x mod 2 = 1" by presburger
    have "2 * (x div 2) = x - 1" using r by presburger
    then show ?thesis using r by (simp add: dbl_def u Let_def algebra_simps)
  qed
  have "x mod 2 \<noteq> 0 \<Longrightarrow> two53 + 1 \<le> x" using assms(1) unfolding two53_def by presburger
  then show ?thesis using assms d by auto
qed

lemma dbl_two53_1: "dbl (two53 + 1) = two53"
  by (simp add: dbl_def two53_def spacing.simps)

subsection \<open>The partition of a block range\<close>










text \<open>Inside the exact integers the loop of the program is the loop on exact integers.\<close>

lemma span_end_exact:
  assumes "- two53 \<le> s" "s \<le> t" "t < two53"
  shows "min (dbl (dbl (s + MAX_SPAN) - 1)) t = min (s + MAX_SPAN - 1) t"
proof (cases "s + MAX_SPAN \<le> two53")
  case True
  have "dbl (s + MAX_SPAN) = s + MAX_SPAN"
    using assms True by (intro dbl_exact) (simp add: MAX_SPAN_def)
  moreover have "dbl (s + MAX_SPAN - 1) = s + MAX_SPAN - 1"
    using assms True by (intro dbl_exact) (simp add: MAX_SPAN_def)
  ultimately show ?thesis by simp
next
  case False
  define x where "x = dbl (s + MAX_SPAN)"
  have "s + MAX_SPAN < 2 * two53" using assms by (simp add: MAX_SPAN_def two53_def)
  then have x: "two53 \<le> x" "x \<le> s + MAX_SPAN + 1"
    using dbl_binade [of "s + MAX_SPAN"] False by (simp_all add: x_def)
  have "t \<le> dbl (x - 1)"
  proof (cases "x - 1 < two53")
    case True
    then have "dbl (x - 1) = x - 1" using x by (intro dbl_exact) (simp add: two53_def)
    then show ?thesis using x assms by simp
  next
    case False
    have "x - 1 < 2 * two53" using x assms by (simp add: MAX_SPAN_def two53_def)
    then have "two53 \<le> dbl (x - 1)" using dbl_binade [of "x - 1"] False by simp
    then show ?thesis using assms by simp
  qed
  then show ?thesis using False assms by (simp add: x_def)
qed

lemma buildRanges_loop_exact:
  "- two53 \<le> s \<Longrightarrow> t < two53 \<Longrightarrow>
     buildRanges_loop s t acc = Some (exact_ranges_loop s t acc)"
proof (induction s t acc rule: exact_ranges_loop.induct)
  case (1 s t acc)
  show ?case
  proof (cases "s \<le> t")
    case False
    then show ?thesis
      by (subst buildRanges_loop.simps, subst exact_ranges_loop.simps) simp
  next
    case True
    define e where "e = min (s + MAX_SPAN - 1) t"
    have e: "min (dbl (dbl (s + MAX_SPAN) - 1)) t = e"
      using span_end_exact [of s t] "1.prems" True by (simp add: e_def)
    have eb: "s \<le> e" "e \<le> t" using True by (simp_all add: e_def MAX_SPAN_def)
    have e1: "dbl (e + 1) = e + 1" using eb "1.prems" by (intro dbl_exact) simp
    have "buildRanges_loop (e + 1) t (acc @ [\<lparr>from = s, to = e\<rparr>])
        = Some (exact_ranges_loop (e + 1) t (acc @ [\<lparr>from = s, to = e\<rparr>]))"
      using "1.IH" [OF True e_def] eb "1.prems" by simp
    then show ?thesis using True e e1
      by (subst buildRanges_loop.simps, subst exact_ranges_loop.simps) (simp add: e_def [symmetric])
  qed
qed

lemma buildRanges_exact:
  "- two53 \<le> fromBlock \<Longrightarrow> toBlock < two53 \<Longrightarrow>
     buildRanges fromBlock toBlock = Some (exact_ranges fromBlock toBlock)"
  by (simp add: buildRanges_def exact_ranges_def buildRanges_loop_exact)







subsection \<open>The block resolver\<close>

lemma monotonic_chain_block:
  "monotonic_chain env e l T \<Longrightarrow> e \<le> n \<Longrightarrow> n \<le> l \<Longrightarrow>
     getBlockByNumber env n = Inr \<lparr>num = n, ts = T n\<rparr>"
  by (auto simp: monotonic_chain_def list_all_iff getBlockByNumber_def getBlockByTag_def)


lemma monotonic_chain_ends:
  "monotonic_chain env e l T \<Longrightarrow>
     getEarliest env = Inr \<lparr>num = e, ts = T e\<rparr> \<and> getLatest env = Inr \<lparr>num = l, ts = T l\<rparr> \<and> e \<le> l"
  by (auto simp: monotonic_chain_def getEarliest_def getLatest_def getBlockByTag_def)

lemma exact_lower_mid_bounds: "lo < hi \<Longrightarrow> lo \<le> exact_lower_mid lo hi \<and> exact_lower_mid lo hi < hi"
  by (auto simp: exact_lower_mid_def)


lemma afterLoop_exact:
  "0 \<le> lo \<Longrightarrow> hi \<le> two53 \<Longrightarrow>
     afterLoop env targetTs lo hi n = Some (exact_afterLoop env targetTs lo hi n)"
proof (induction env targetTs lo hi n rule: exact_afterLoop.induct)
  case (1 env targetTs lo hi n)
  show ?case
  proof (cases "lo < hi")
    case False
    then show ?thesis
      by (subst afterLoop.simps, subst exact_afterLoop.simps) simp
  next
    case True
    define mid where "mid = exact_lower_mid lo hi"
    have mb: "lo \<le> mid" "mid < hi" using exact_lower_mid_bounds [OF True] by (simp_all add: mid_def)
    have "dbl (hi - lo) = hi - lo" using "1.prems" True by (intro dbl_exact) simp
    moreover have "dbl (lo + (hi - lo) div 2) = lo + (hi - lo) div 2"
      using "1.prems" mb by (intro dbl_exact) (simp add: mid_def exact_lower_mid_def)
    ultimately have m: "lower_mid lo hi = mid"
      by (simp add: lower_mid_def mid_def exact_lower_mid_def)
    have m1: "dbl (mid + 1) = mid + 1" using "1.prems" mb by (intro dbl_exact) simp
    show ?thesis
    proof (cases "getBlockByNumber env mid")
      case (Inl e)
      then show ?thesis using True m
        by (subst afterLoop.simps, subst exact_afterLoop.simps) (simp add: mid_def [symmetric])
    next
      case (Inr b)
      show ?thesis
      proof (cases "targetTs \<le> ts b")
        case ge: True
        have "afterLoop env targetTs lo mid (Suc n) = Some (exact_afterLoop env targetTs lo mid (Suc n))"
          using "1.IH"(1) [OF True mid_def Inr ge] "1.prems" mb by simp
        then show ?thesis using True m Inr ge
          by (subst afterLoop.simps, subst exact_afterLoop.simps) (simp add: mid_def [symmetric])
      next
        case lt: False
        have "afterLoop env targetTs (mid + 1) hi (Suc n)
            = Some (exact_afterLoop env targetTs (mid + 1) hi (Suc n))"
          using "1.IH"(2) [OF True mid_def Inr lt] "1.prems" mb by simp
        then show ?thesis using True m m1 Inr lt
          by (subst afterLoop.simps, subst exact_afterLoop.simps) (simp add: mid_def [symmetric])
      qed
    qed
  qed
qed

text \<open>
  On the chain \<open>2^53, 2^53 + 1, 2^53 + 2\<close> both mids of the whole interval round to
  \<open>2^53\<close>, whose timestamp \<open>5\<close> is below the target \<open>7\<close>: the search for the first block
  sets \<open>lo\<close> to \<open>2^53 + 1\<close>, which rounds to \<open>2^53\<close>, and the search for the last block
  sets \<open>lo\<close> to the mid. Either way the state is the one before.
\<close>

lemma big_chain: "monotonic_chain big_env two53 (two53 + 2) big_ts"
  unfolding monotonic_chain_def list_all_iff set_upto
  by (auto simp: big_env_def big_ts_def two53_def)

lemma big_first: "getBlockByNumber big_env two53 = Inr \<lparr>num = two53, ts = 5\<rparr>"
  by (simp add: getBlockByNumber_def getBlockByTag_def big_env_def big_ts_def)

lemma big_ends:
  "getEarliest big_env = Inr \<lparr>num = two53, ts = 5\<rparr>"
  "getLatest big_env = Inr \<lparr>num = two53 + 2, ts = 9\<rparr>"
  by (simp_all add: getEarliest_def getLatest_def getBlockByTag_def big_env_def big_ts_def two53_def)

lemma big_mids:
  "lower_mid two53 (two53 + 2) = two53"
  "upper_mid two53 (two53 + 2) = two53"
  by (simp_all add: lower_mid_def upper_mid_def dbl_def two53_def spacing.simps)




text \<open>The concrete node serves a chain with monotonic timestamps (with ties).\<close>

lemma demo_chain: "monotonic_chain demo_env 0 150000 demo_ts"
  unfolding monotonic_chain_def list_all_iff set_upto
  by (auto simp: demo_env_def demo_ts_def)



subsection \<open>Termination of the search for the last block at or before a timestamp\<close>

lemma exact_upper_mid_bounds: "lo < hi \<Longrightarrow> lo < exact_upper_mid lo hi \<and> exact_upper_mid lo hi \<le> hi"
  by (auto simp: exact_upper_mid_def)

lemma exact_beforeLoop_shrinks:
  "lo \<le> hi \<Longrightarrow> exact_beforeLoop env targetTs lo hi n = Inr (lo', hi', k) \<Longrightarrow>
     lo' = hi' \<and> lo \<le> lo' \<and> hi' \<le> hi \<and> n \<le> k \<and> k \<le> n + nat (hi - lo)"
proof (induction env targetTs lo hi n rule: exact_beforeLoop.induct)
  case (1 env targetTs lo hi n)
  show ?case
  proof (cases "lo < hi")
    case False
    then show ?thesis using "1.prems" by (subst (asm) exact_beforeLoop.simps) auto
  next
    case True
    define mid where "mid = exact_upper_mid lo hi"
    have mb: "lo < mid" "mid \<le> hi" using exact_upper_mid_bounds [OF True] by (simp_all add: mid_def)
    from "1.prems"(2) True obtain b where b: "getBlockByNumber env mid = Inr b"
      by (subst (asm) exact_beforeLoop.simps) (auto simp: mid_def Let_def split: sum.splits)
    show ?thesis
    proof (cases "ts b \<le> targetTs")
      case le: True
      have "exact_beforeLoop env targetTs mid hi (Suc n) = Inr (lo', hi', k)"
        using "1.prems"(2) True b le by (subst (asm) exact_beforeLoop.simps) (simp add: mid_def [symmetric])
      then show ?thesis using "1.IH"(1) [OF True mid_def b le] mb by auto
    next
      case gt: False
      have "exact_beforeLoop env targetTs lo (mid - 1) (Suc n) = Inr (lo', hi', k)"
        using "1.prems"(2) True b gt by (subst (asm) exact_beforeLoop.simps) (simp add: mid_def [symmetric])
      then show ?thesis using "1.IH"(2) [OF True mid_def b gt] mb by auto
    qed
  qed
qed

lemma exact_beforeLoop_stops: "\<not> lo < hi \<Longrightarrow> exact_beforeLoop env targetTs lo hi n = Inr (lo, hi, n)"
  by (subst exact_beforeLoop.simps) simp

lemma exact_beforeLoop_returns:
  "lo \<le> hi \<Longrightarrow> (\<forall>m. lo < m \<and> m \<le> hi \<longrightarrow> (\<exists>b. getBlockByNumber env m = Inr b)) \<Longrightarrow>
     \<exists>r k. exact_beforeLoop env targetTs lo hi n = Inr (r, r, k)"
proof (induction env targetTs lo hi n rule: exact_beforeLoop.induct)
  case (1 env targetTs lo hi n)
  show ?case
  proof (cases "lo < hi")
    case False
    then have "lo = hi" using "1.prems" by simp
    then show ?thesis using exact_beforeLoop_stops [of lo hi env targetTs n] by simp
  next
    case True
    define mid where "mid = exact_upper_mid lo hi"
    have mb: "lo < mid" "mid \<le> hi" using exact_upper_mid_bounds [OF True] by (simp_all add: mid_def)
    then obtain b where b: "getBlockByNumber env mid = Inr b" using "1.prems"(2) by blast
    show ?thesis
    proof (cases "ts b \<le> targetTs")
      case le: True
      have unf: "exact_beforeLoop env targetTs lo hi n = exact_beforeLoop env targetTs mid hi (Suc n)"
        using True b le by (subst exact_beforeLoop.simps) (simp add: mid_def [symmetric])
      have "\<forall>m. mid < m \<and> m \<le> hi \<longrightarrow> (\<exists>b. getBlockByNumber env m = Inr b)"
        using "1.prems"(2) mb by auto
      then show ?thesis using "1.IH"(1) [OF True mid_def b le] mb unf by simp
    next
      case gt: False
      have unf: "exact_beforeLoop env targetTs lo hi n = exact_beforeLoop env targetTs lo (mid - 1) (Suc n)"
        using True b gt by (subst exact_beforeLoop.simps) (simp add: mid_def [symmetric])
      have "\<forall>m. lo < m \<and> m \<le> mid - 1 \<longrightarrow> (\<exists>b. getBlockByNumber env m = Inr b)"
        using "1.prems"(2) mb by auto
      then show ?thesis using "1.IH"(2) [OF True mid_def b gt] mb unf by simp
    qed
  qed
qed

lemma upper_mid_exact:
  assumes "0 \<le> lo" "lo \<le> hi" "hi \<le> two53"
  shows "upper_mid lo hi = exact_upper_mid lo hi"
proof -
  have "dbl (hi - lo) = hi - lo" using assms by (intro dbl_exact) simp
  moreover have "dbl (hi - lo + 1) div 2 = (hi - lo + 1) div 2"
  proof (cases "hi - lo + 1 \<le> two53")
    case True
    then have "dbl (hi - lo + 1) = hi - lo + 1" using assms by (intro dbl_exact) simp
    then show ?thesis by simp
  next
    case False
    then have "hi - lo + 1 = two53 + 1" using assms by simp
    then show ?thesis by (simp add: dbl_two53_1) (simp add: two53_def)
  qed
  moreover have "dbl (lo + (hi - lo + 1) div 2) = lo + (hi - lo + 1) div 2"
    using assms by (intro dbl_exact) simp
  ultimately show ?thesis by (simp add: upper_mid_def exact_upper_mid_def)
qed

lemma beforeLoop_exact:
  "0 \<le> lo \<Longrightarrow> hi \<le> two53 \<Longrightarrow>
     beforeLoop env targetTs lo hi n = Some (exact_beforeLoop env targetTs lo hi n)"
proof (induction env targetTs lo hi n rule: exact_beforeLoop.induct)
  case (1 env targetTs lo hi n)
  show ?case
  proof (cases "lo < hi")
    case False
    then show ?thesis
      by (subst beforeLoop.simps, subst exact_beforeLoop.simps) simp
  next
    case True
    define mid where "mid = exact_upper_mid lo hi"
    have mb: "lo < mid" "mid \<le> hi" using exact_upper_mid_bounds [OF True] by (simp_all add: mid_def)
    have m: "upper_mid lo hi = mid"
      using upper_mid_exact [of lo hi] "1.prems" True by (simp add: mid_def)
    have m1: "dbl (mid - 1) = mid - 1" using "1.prems" mb by (intro dbl_exact) simp
    show ?thesis
    proof (cases "getBlockByNumber env mid")
      case (Inl e)
      then show ?thesis using True m
        by (subst beforeLoop.simps, subst exact_beforeLoop.simps) (simp add: mid_def [symmetric])
    next
      case (Inr b)
      show ?thesis
      proof (cases "ts b \<le> targetTs")
        case le: True
        have "beforeLoop env targetTs mid hi (Suc n) = Some (exact_beforeLoop env targetTs mid hi (Suc n))"
          using "1.IH"(1) [OF True mid_def Inr le] "1.prems" mb by simp
        then show ?thesis using True m Inr le
          by (subst beforeLoop.simps, subst exact_beforeLoop.simps) (simp add: mid_def [symmetric])
      next
        case gt: False
        have "beforeLoop env targetTs lo (mid - 1) (Suc n)
            = Some (exact_beforeLoop env targetTs lo (mid - 1) (Suc n))"
          using "1.IH"(2) [OF True mid_def Inr gt] "1.prems" mb by simp
        then show ?thesis using True m m1 Inr gt
          by (subst beforeLoop.simps, subst exact_beforeLoop.simps) (simp add: mid_def [symmetric])
      qed
    qed
  qed
qed

lemma beforeLoop_stops: "\<not> lo < hi \<Longrightarrow> beforeLoop env targetTs lo hi n = Some (Inr (lo, hi, n))"
  by (subst beforeLoop.simps) simp

lemma findBlockAtOrBefore_returns:
  assumes "monotonic_chain env e l T" and "0 \<le> e" and "l \<le> two53"
  shows "\<exists>r. findBlockAtOrBefore env targetTs = Some (Inr r) \<and> e \<le> r \<and> r \<le> l"
proof -
  note ends = monotonic_chain_ends [OF assms(1)]
  have look: "\<forall>m. e < m \<and> m \<le> l \<longrightarrow> (\<exists>b. getBlockByNumber env m = Inr b)"
    using monotonic_chain_block [OF assms(1)] by simp
  obtain r k where r: "exact_beforeLoop env targetTs e l 0 = Inr (r, r, k)"
    using exact_beforeLoop_returns [of e l env targetTs 0] ends look by blast
  have rb: "e \<le> r \<and> r \<le> l"
    using exact_beforeLoop_shrinks [OF _ r] ends by simp
  have "beforeLoop env targetTs e l 0 = Some (Inr (r, r, k))"
    using beforeLoop_exact [OF assms(2,3), of env targetTs 0] r by simp
  then show ?thesis using ends rb by (simp add: findBlockAtOrBefore_def)
qed

lemma beforeLoop_stuck_aux:
  assumes a: "beforeLoop env t lo hi n = Some y"
  shows "\<not> (env = big_env \<and> t = 7 \<and> lo = two53 \<and> hi = two53 + 2)"
proof (rule beforeLoop.raw_induct
    [where P = "\<lambda>env t lo hi n y. \<not> (env = big_env \<and> t = 7 \<and> lo = two53 \<and> hi = two53 + 2)", OF _ a])
  fix loop env and t lo hi :: int and n :: nat and y :: "rpc_error + int \<times> int \<times> nat"
  assume IH: "\<And>env t lo hi n y. loop env t lo hi n = Some y \<Longrightarrow>
      \<not> (env = big_env \<and> t = 7 \<and> lo = two53 \<and> hi = two53 + 2)"
    and eq: "(if lo < hi
      then let mid = upper_mid lo hi
           in case getBlockByNumber env mid of
                Inl e \<Rightarrow> Some (Inl e)
              | Inr b \<Rightarrow>
                  if ts b \<le> t then loop env t mid hi (Suc n)
                  else loop env t lo (dbl (mid - 1)) (Suc n)
      else Some (Inr (lo, hi, n))) = Some y"
  show "\<not> (env = big_env \<and> t = 7 \<and> lo = two53 \<and> hi = two53 + 2)"
  proof
    assume st: "env = big_env \<and> t = 7 \<and> lo = two53 \<and> hi = two53 + 2"
    from eq st have "loop big_env 7 two53 (two53 + 2) (Suc n) = Some y"
      by (simp add: big_mids big_first)
    then show False using IH by blast
  qed
qed

lemma beforeLoop_stuck: "beforeLoop big_env 7 two53 (two53 + 2) n = None"
  using beforeLoop_stuck_aux [of big_env 7 two53 "two53 + 2" n]
  by (cases "beforeLoop big_env 7 two53 (two53 + 2) n") auto

text \<open>
  Claim C7, as far as it holds: for block numbers between \<open>0\<close> and \<open>2^53\<close>. In an
  iteration (\<open>lo < hi\<close>) the upper mid satisfies \<open>lo < mid \<le> hi\<close>, so both successor
  intervals, \<open>[mid, hi]\<close> and \<open>[lo, mid - 1]\<close>, are strictly shorter. Without \<open>lo < hi\<close>
  the search stops at once, whatever the numbers. Started with \<open>lo \<le> hi\<close>, the search
  returns: it is ended by a failed block lookup, or it ends with \<open>lo = hi\<close> inside the
  interval it started from, after at most \<open>hi - lo\<close> iterations; and when every block
  of the interval can be looked up, it ends the second way. On a chain with monotonic
  timestamps \<open>findBlockAtOrBefore\<close> returns a block of the chain.
\<close>

theorem findBlockAtOrBefore_terminates:
  "(0 \<le> lo \<and> lo < hi \<and> hi \<le> two53 \<longrightarrow>
      lo < upper_mid lo hi \<and> upper_mid lo hi \<le> hi
      \<and> nat (hi - upper_mid lo hi) < nat (hi - lo)
      \<and> nat ((upper_mid lo hi - 1) - lo) < nat (hi - lo))
   \<and> (\<not> lo < hi \<longrightarrow> beforeLoop env targetTs lo hi n = Some (Inr (lo, hi, n)))
   \<and> (0 \<le> lo \<and> lo \<le> hi \<and> hi \<le> two53 \<longrightarrow>
        (\<exists>res. beforeLoop env targetTs lo hi n = Some res \<and>
           (case res of
              Inl e \<Rightarrow> True
            | Inr (lo', hi', k) \<Rightarrow> lo' = hi' \<and> lo \<le> lo' \<and> hi' \<le> hi \<and> k - n \<le> nat (hi - lo))))
   \<and> (0 \<le> lo \<and> lo \<le> hi \<and> hi \<le> two53
        \<and> (\<forall>m. lo < m \<and> m \<le> hi \<longrightarrow> (\<exists>b. getBlockByNumber env m = Inr b)) \<longrightarrow>
        (\<exists>r k. beforeLoop env targetTs lo hi n = Some (Inr (r, r, k))))
   \<and> (monotonic_chain env earliest latest T \<and> 0 \<le> earliest \<and> latest \<le> two53 \<longrightarrow>
        (\<exists>r. findBlockAtOrBefore env targetTs = Some (Inr r) \<and> earliest \<le> r \<and> r \<le> latest))"
proof (intro conjI impI)
  assume a: "0 \<le> lo \<and> lo < hi \<and> hi \<le> two53"
  then have "upper_mid lo hi = exact_upper_mid lo hi" by (intro upper_mid_exact) simp_all
  then show "lo < upper_mid lo hi" "upper_mid lo hi \<le> hi"
    "nat (hi - upper_mid lo hi) < nat (hi - lo)"
    "nat ((upper_mid lo hi - 1) - lo) < nat (hi - lo)"
    using a exact_upper_mid_bounds [of lo hi] by simp_all
next
  assume "\<not> lo < hi"
  then show "beforeLoop env targetTs lo hi n = Some (Inr (lo, hi, n))"
    by (rule beforeLoop_stops)
next
  assume a: "0 \<le> lo \<and> lo \<le> hi \<and> hi \<le> two53"
  then have le: "lo \<le> hi" by simp
  have ex: "beforeLoop env targetTs lo hi n = Some (exact_beforeLoop env targetTs lo hi n)"
    using a by (intro beforeLoop_exact) simp_all
  have "case exact_beforeLoop env targetTs lo hi n of
           Inl e \<Rightarrow> True
         | Inr (lo', hi', k) \<Rightarrow> lo' = hi' \<and> lo \<le> lo' \<and> hi' \<le> hi \<and> k - n \<le> nat (hi - lo)"
  proof (cases "exact_beforeLoop env targetTs lo hi n")
    case (Inl e)
    then show ?thesis by simp
  next
    case (Inr res)
    obtain lo' hi' k where res: "res = (lo', hi', k)" by (cases res) auto
    have "lo' = hi' \<and> lo \<le> lo' \<and> hi' \<le> hi \<and> n \<le> k \<and> k \<le> n + nat (hi - lo)"
      using exact_beforeLoop_shrinks [OF le] Inr res by simp
    moreover from this have "k - n \<le> nat (hi - lo)" by linarith
    ultimately show ?thesis using Inr res by simp
  qed
  then show "\<exists>res. beforeLoop env targetTs lo hi n = Some res \<and>
           (case res of
              Inl e \<Rightarrow> True
            | Inr (lo', hi', k) \<Rightarrow> lo' = hi' \<and> lo \<le> lo' \<and> hi' \<le> hi \<and> k - n \<le> nat (hi - lo))"
    using ex by simp
next
  assume a: "0 \<le> lo \<and> lo \<le> hi \<and> hi \<le> two53
        \<and> (\<forall>m. lo < m \<and> m \<le> hi \<longrightarrow> (\<exists>b. getBlockByNumber env m = Inr b))"
  have ex: "beforeLoop env targetTs lo hi n = Some (exact_beforeLoop env targetTs lo hi n)"
    using a by (intro beforeLoop_exact) simp_all
  have "\<exists>r k. exact_beforeLoop env targetTs lo hi n = Inr (r, r, k)"
    using a exact_beforeLoop_returns [of lo hi env targetTs n] by simp
  then show "\<exists>r k. beforeLoop env targetTs lo hi n = Some (Inr (r, r, k))"
    using ex by simp
next
  assume "monotonic_chain env earliest latest T \<and> 0 \<le> earliest \<and> latest \<le> two53"
  then show "\<exists>r. findBlockAtOrBefore env targetTs = Some (Inr r) \<and> earliest \<le> r \<and> r \<le> latest"
    using findBlockAtOrBefore_returns [of env earliest latest T targetTs] by simp
qed

lemma demo_getBlock:
  "0 \<le> n \<Longrightarrow> n \<le> 150000 \<Longrightarrow> getBlockByNumber demo_env n = Inr \<lparr>num = n, ts = 1000 + n div 2\<rparr>"
  by (simp add: getBlockByNumber_def getBlockByTag_def demo_env_def demo_ts_def)

lemma demo_ends:
  "getEarliest demo_env = Inr \<lparr>num = 0, ts = 1000\<rparr>"
  "getLatest demo_env = Inr \<lparr>num = 150000, ts = 76000\<rparr>"
  by (simp_all add: getEarliest_def getLatest_def getBlockByTag_def demo_env_def demo_ts_def)

lemma demo_before_exact: "exact_beforeLoop demo_env 1010 0 150000 0 = Inr (21, 21, 17)"
  by (simp add: exact_beforeLoop.simps exact_upper_mid_def demo_getBlock)

lemma demo_before: "beforeLoop demo_env 1010 0 150000 0 = Some (Inr (21, 21, 17))"
  by (simp add: beforeLoop_exact demo_before_exact two53_def)

lemma demo_upper_mid: "upper_mid 0 150000 = 75000"
  by (simp add: upper_mid_exact exact_upper_mid_def two53_def)

theorem findBlockAtOrBefore_terminates_witness:
  "(0::int) \<le> 0 \<and> (0::int) < 150000 \<and> 150000 \<le> two53
   \<and> upper_mid 0 150000 = 75000
   \<and> nat (150000 - upper_mid 0 150000) < nat (150000 - 0)
   \<and> nat ((upper_mid 0 150000 - 1) - 0) < nat (150000 - 0)
   \<and> beforeLoop demo_env 1010 0 150000 0 = Some (Inr (21, 21, 17))
   \<and> (17::nat) \<le> nat (150000 - 0)
   \<and> monotonic_chain demo_env 0 150000 demo_ts
   \<and> findBlockAtOrBefore demo_env 1010 = Some (Inr 21)"
proof -
  note t = findBlockAtOrBefore_terminates [of 0 150000 demo_env 1010 0 0 150000 demo_ts]
  have h: "(0::int) \<le> 0 \<and> (0::int) < 150000 \<and> 150000 \<le> two53" by (simp add: two53_def)
  from t h have "nat (150000 - upper_mid 0 150000) < nat (150000 - 0)
      \<and> nat ((upper_mid 0 150000 - 1) - 0) < nat (150000 - 0)"
    by blast
  moreover from t h demo_chain obtain r where
    "findBlockAtOrBefore demo_env 1010 = Some (Inr r)"
    by blast
  moreover have "findBlockAtOrBefore demo_env 1010 = Some (Inr 21)"
    by (simp add: findBlockAtOrBefore_def demo_ends demo_before)
  ultimately show ?thesis using demo_before demo_upper_mid demo_chain h by simp
qed

text \<open>
  Claim C7 as it is worded, for every input, fails beyond the exact integers. On the
  interval from \<open>2^53\<close> to \<open>2^53 + 2\<close> the upper mid is \<open>2^53\<close>, which is \<open>lo\<close> and not
  above it; on the chain of these three blocks with the timestamps \<open>5, 6, 9\<close> the branch
  \<open>lo = mid\<close> is taken for the target \<open>7\<close>, the interval does not shrink, and
  \<open>findBlockAtOrBefore\<close> never returns.
\<close>

theorem findBlockAtOrBefore_never_returns_beyond_two53:
  "two53 < two53 + 2
   \<and> upper_mid two53 (two53 + 2) = two53
   \<and> monotonic_chain big_env two53 (two53 + 2) big_ts
   \<and> beforeLoop big_env 7 two53 (two53 + 2) 0 = None
   \<and> findBlockAtOrBefore big_env 7 = None"
  using big_chain
  by (simp add: findBlockAtOrBefore_def big_ends beforeLoop_stuck big_mids)

subsection \<open>The empty range\<close>

lemma demo_after_exact: "exact_afterLoop demo_env 51000 0 150000 0 = Inr (100000, 100000, 17)"
  by (simp add: exact_afterLoop.simps exact_lower_mid_def demo_getBlock)

lemma demo_after: "afterLoop demo_env 51000 0 150000 0 = Some (Inr (100000, 100000, 17))"
  by (simp add: afterLoop_exact demo_after_exact two53_def)

lemma demo_resolve:
  "resolve search demo_env \<lparr>startTs = Some 51000, endTs = Some 1010\<rparr> =
     Some (if search 51000 then (if search 1010 then Inr (100000, 21) else Inr (100000, 150000))
           else (if search 1010 then Inr (0, 21) else Inr (0, 150000)))"
  by (simp add: resolve_def demo_ends findBlockAtOrAfter_def findBlockAtOrBefore_def
      demo_after demo_before)

text \<open>
  Claim C8. When the resolution of the dates succeeds with \<open>toBlock < fromBlock\<close>, both
  pipelines end with an empty list of rows and no error (\<open>ok: true, rows: []\<close> for the
  server route; \<open>rows = []\<close>, \<open>error = null\<close> for the page) and send no \<open>eth_getLogs\<close>
  batch at all.
\<close>

theorem empty_range_no_fetch:
  "(resolve (\<lambda>s. s > 0) env req = Some (Inr (fromBlock, toBlock)) \<and> toBlock < fromBlock \<longrightarrow>
      handler env req = Some (RespOk [], []))
   \<and> (resolve (\<lambda>s. s \<noteq> 0) env req = Some (Inr (fromBlock, toBlock)) \<and> toBlock < fromBlock \<longrightarrow>
      handleRun env req batchSize = Some (\<lparr>ui_rows = [], ui_error = None\<rparr>, []))"
  by (simp add: handler_def handleRun_def)

theorem empty_range_no_fetch_witness:
  "resolve (\<lambda>s. s > 0) demo_env \<lparr>startTs = Some 51000, endTs = Some 1010\<rparr> = Some (Inr (100000, 21))
   \<and> resolve (\<lambda>s. s \<noteq> 0) demo_env \<lparr>startTs = Some 51000, endTs = Some 1010\<rparr> = Some (Inr (100000, 21))
   \<and> (21::int) < 100000
   \<and> handler demo_env \<lparr>startTs = Some 51000, endTs = Some 1010\<rparr> = Some (RespOk [], [])
   \<and> handleRun demo_env \<lparr>startTs = Some 51000, endTs = Some 1010\<rparr> 2
        = Some (\<lparr>ui_rows = [], ui_error = None\<rparr>, [])"
  using empty_range_no_fetch [of demo_env "\<lparr>startTs = Some 51000, endTs = Some 1010\<rparr>" 100000 21 2]
  by (simp add: demo_resolve)

subsection \<open>Deduplication\<close>



lemma map_set_fresh: "k \<notin> set (map fst m) \<Longrightarrow> map_set k v m = m @ [(k, v)]"
  by (induction m) auto



lemma fill_simps [simp]:
  "fill m [] = m"
  "fill m (x # xs) = fill (map_set (logKey x) x m) xs"
  by (simp_all add: fill_def)

lemma fill_append: "fill m (xs @ ys) = fill (fill m xs) ys"
  by (simp add: fill_def)






lemma uniq_of_fill: "uniq_of allLogs = fill [] allLogs"
  by (simp add: uniq_of_def fill_def)






lemma fill_distinct_keys:
  "distinct (map fst m @ map logKey ys) \<Longrightarrow> fill m ys = m @ map (\<lambda>e. (logKey e, e)) ys"
proof (induction ys arbitrary: m)
  case Nil
  then show ?case by simp
next
  case (Cons y ys)
  have "map_set (logKey y) y m = m @ [(logKey y, y)]"
    using Cons.prems by (simp add: map_set_fresh)
  then show ?case using Cons.IH [of "m @ [(logKey y, y)]"] Cons.prems by simp
qed

lemma dedup_fixed: "distinct (map logKey ys) \<Longrightarrow> dedup ys = ys"
  using fill_distinct_keys [of "[]" ys] by (simp add: dedup_def uniq_of_fill comp_def)






lemma digit_char_not_dash: "d < 10 \<Longrightarrow> digit_char d \<noteq> CHR ''-''"
proof
  assume "d < 10" and "digit_char d = CHR ''-''"
  then have "of_char (digit_char d) = (of_char (CHR ''-'') :: nat)" by simp
  then show False using \<open>d < 10\<close> by (simp add: digit_char_def take_bit_eq_mod)
qed


lemma decimal_no_dash: "CHR ''-'' \<notin> set (decimal n)"
proof (induction n rule: decimal.induct)
  case (1 n)
  show ?case
  proof (cases "n < 10")
    case True
    then show ?thesis using digit_char_not_dash [of n] by (subst decimal.simps) auto
  next
    case False
    have "n mod 10 < 10" by simp
    then have "digit_char (n mod 10) \<noteq> CHR ''-''" by (rule digit_char_not_dash)
    then show ?thesis using False "1.IH" by (subst decimal.simps) auto
  qed
qed



text \<open>
  A log index up to \<open>2^53\<close> is parsed exactly and printed with all its digits, so the key
  of such a log is its hash, a dash and the decimal digits of its index.
\<close>

lemma parseInt16_exact: "int i \<le> two53 \<Longrightarrow> parseInt16 i = Num i"
proof -
  assume a: "int i \<le> two53"
  then have "dbl (int i) = int i" by (intro dbl_exact) simp
  moreover have "int i < 2 ^ 1024"
  proof -
    have "two53 = 2 ^ 53" by (simp add: two53_def)
    moreover have "(2::int) ^ 53 < 2 ^ 1024" by (intro power_strict_increasing) simp_all
    ultimately show ?thesis using a by linarith
  qed
  ultimately show ?thesis by (simp add: parseInt16_def)
qed

lemma logKey_exact:
  "int (logIndex a) \<le> two53 \<Longrightarrow> logKey a = transactionHash a @ CHR ''-'' # decimal (logIndex a)"
  by (simp add: logKey_def parseInt16_exact numberToString_def)


lemma digit_char_values:
  "digit_char 0 = CHR ''0''" "digit_char 1 = CHR ''1''" "digit_char 2 = CHR ''2''"
  "digit_char 3 = CHR ''3''" "digit_char 4 = CHR ''4''" "digit_char 5 = CHR ''5''"
  "digit_char 6 = CHR ''6''" "digit_char 7 = CHR ''7''" "digit_char 8 = CHR ''8''"
  "digit_char 9 = CHR ''9''" "digit_char (Suc 0) = CHR ''1''"
  by (simp_all add: digit_char_def char_of_def bit_0)

lemma demo_keys:
  "map logKey demo_logs = [''0xa1-0'', ''0xb2-3'', ''0xc3-1'']"
  "logKey demo_again = ''0xa1-0''"
  by (simp_all add: demo_logs_def demo_first_def demo_broken_def demo_second_def demo_again_def
      logKey_exact two53_def decimal.simps digit_char_values)




text \<open>
  Beyond \<open>2^53\<close> the key carries the digits of the rounded index: the log index
  \<open>2^53 + 3\<close> reads as \<open>2^53 + 4\<close>, and \<open>2^64\<close> is printed with seventeen digits and
  three zeros.
\<close>

lemma upt_digits: "[Suc 0..<18] = [1, 2, 3, 4, 5, 6, 7, 8, 9, 10, 11, 12, 13, 14, 15, 16, 17]"
  by (simp add: upt_rec)

lemma length_decimal_examples:
  "length (decimal 9007199254740996) = 16"
  "length (decimal 18446744073709551616) = 20"
  by (simp_all add: decimal.simps)

lemma candidates_two53_4:
  "candidates 9007199254740996 (Suc 0) = []" "candidates 9007199254740996 2 = []"
  "candidates 9007199254740996 3 = []" "candidates 9007199254740996 4 = []"
  "candidates 9007199254740996 5 = []" "candidates 9007199254740996 6 = []"
  "candidates 9007199254740996 7 = []" "candidates 9007199254740996 8 = []"
  "candidates 9007199254740996 9 = []" "candidates 9007199254740996 10 = []"
  "candidates 9007199254740996 11 = []" "candidates 9007199254740996 12 = []"
  "candidates 9007199254740996 13 = []" "candidates 9007199254740996 14 = []"
  "candidates 9007199254740996 15 = []"
  "candidates 9007199254740996 16 = [(9007199254740996, 16), (9007199254740997, 16)]"
  by (simp_all add: candidates_def length_decimal_examples dbl_def spacing.simps)

lemma candidates_two64:
  "candidates 18446744073709551616 (Suc 0) = []" "candidates 18446744073709551616 2 = []"
  "candidates 18446744073709551616 3 = []" "candidates 18446744073709551616 4 = []"
  "candidates 18446744073709551616 5 = []" "candidates 18446744073709551616 6 = []"
  "candidates 18446744073709551616 7 = []" "candidates 18446744073709551616 8 = []"
  "candidates 18446744073709551616 9 = []" "candidates 18446744073709551616 10 = []"
  "candidates 18446744073709551616 11 = []" "candidates 18446744073709551616 12 = []"
  "candidates 18446744073709551616 13 = []" "candidates 18446744073709551616 14 = []"
  "candidates 18446744073709551616 15 = []" "candidates 18446744073709551616 16 = []"
  "candidates 18446744073709551616 17 = [(18446744073709551, 20), (18446744073709552, 20)]"
  by (simp_all add: candidates_def length_decimal_examples dbl_def spacing.simps)

lemma shortest_examples:
  "shortest 9007199254740996 = (9007199254740996, 16)"
  "shortest 18446744073709551616 = (18446744073709552, 20)"
  by (simp_all add: shortest_def upt_digits candidates_two53_4 candidates_two64 closer_def distance_def)

lemma parseInt16_examples:
  "parseInt16 9007199254740995 = Num 9007199254740996"
  "parseInt16 18446744073709551616 = Num 18446744073709551616"
proof -
  have d: "dbl 9007199254740995 = 9007199254740996" "dbl 18446744073709551616 = 18446744073709551616"
    by (simp_all add: dbl_def spacing.simps)
  have "(9007199254740996::int) < 2 ^ 64" "(18446744073709551616::int) < 2 ^ 65" by simp_all
  moreover have "(2::int) ^ 64 < 2 ^ 1024" "(2::int) ^ 65 < 2 ^ 1024"
    by (intro power_strict_increasing; simp)+
  ultimately have "(9007199254740996::int) < 2 ^ 1024" "(18446744073709551616::int) < 2 ^ 1024"
    by linarith+
  then show "parseInt16 9007199254740995 = Num 9007199254740996"
    "parseInt16 18446744073709551616 = Num 18446744073709551616"
    using d by (simp_all add: parseInt16_def)
qed

lemma decimal_examples:
  "decimal 9007199254740996 = ''9007199254740996''"
  "decimal 18446744073709552 = ''18446744073709552''"
  by (simp_all add: decimal.simps digit_char_values)

lemma numberToString_examples:
  "numberToString (parseInt16 9007199254740995) = ''9007199254740996''"
  "numberToString (parseInt16 18446744073709551616) = ''18446744073709552000''"
  by (simp_all add: parseInt16_examples numberToString_def shortest_examples two53_def
      decimal_examples numeral_3_eq_3)




subsection \<open>Decoding\<close>

lemma filterBoolean_append: "filterBoolean (xs @ ys) = filterBoolean xs @ filterBoolean ys"
  by (simp add: filterBoolean_def)

lemma decodeAll_append: "decodeAll parse (xs @ ys) = decodeAll parse xs @ decodeAll parse ys"
  by (simp add: decodeAll_def filterBoolean_append)

lemma decodeAll_Cons:
  "decodeAll parse (entry # logs) =
     (case decodeGameResult parse entry of None \<Rightarrow> [] | Some r \<Rightarrow> [r]) @ decodeAll parse logs"
  by (simp add: decodeAll_def filterBoolean_def split: option.splits)

lemma decodeAll_Nil: "decodeAll parse [] = []"
  by (simp add: decodeAll_def filterBoolean_def)

lemma decodeAll_map_filter: "decodeAll parse logs = List.map_filter (decodeGameResult parse) logs"
  by (induction logs) (auto simp: decodeAll_def filterBoolean_def List.map_filter_simps)

lemma decode_throws:
  "parse (topics entry) (data entry) = ParseThrows \<Longrightarrow> decodeGameResult parse entry = None"
  by (simp add: decodeGameResult_def)

lemma decode_null:
  "parse (topics entry) (data entry) = ParseNull \<Longrightarrow> decodeGameResult parse entry = None"
  by (simp add: decodeGameResult_def)

lemma decode_parsed:
  "parse (topics entry) (data entry) = Parsed args \<Longrightarrow>
     \<exists>r. decodeGameResult parse entry = Some r \<and> blockNumber r = logBlockNumber entry
        \<and> txHash r = transactionHash entry"
  by (cases args) (simp add: decodeGameResult_def)

lemma demo_decode:
  "decodeGameResult demo_parse demo_first = Some demo_row1"
  "decodeGameResult demo_parse demo_broken = None"
  "decodeGameResult demo_parse demo_second = Some demo_row2"
  by (simp_all add: decodeGameResult_def demo_parse_def demo_logs_def demo_first_def demo_broken_def demo_second_def demo_row1_def demo_row2_def)

lemma demo_decodeAll: "decodeAll demo_parse demo_logs = [demo_row1, demo_row2]"
  by (simp add: decodeGameResult_def decodeAll_def filterBoolean_def demo_parse_def demo_logs_def demo_first_def demo_broken_def demo_second_def
      demo_row1_def demo_row2_def)

text \<open>
  Claim C9. Decoding is total on every entry. An entry on which \<open>parseLog\<close> throws (or
  returns \<open>null\<close>) decodes to nothing and is dropped: the output for a batch with such
  an entry in it is the output for the entries before it followed by the output for the
  entries after it. An entry that parses yields one row, with the block number and the
  transaction hash of the entry, at its place between the rows of the entries around it.
  The output is the list of the rows of the entries that decode, in order.
\<close>

theorem decode_drops_only_malformed:
  "(parse (topics bad) (data bad) = ParseThrows \<or> parse (topics bad) (data bad) = ParseNull \<longrightarrow>
      decodeGameResult parse bad = None
      \<and> decodeAll parse (pre @ [bad] @ post) = decodeAll parse pre @ decodeAll parse post)
   \<and> (\<forall>args. parse (topics good) (data good) = Parsed args \<longrightarrow>
        (\<exists>r. decodeGameResult parse good = Some r
           \<and> blockNumber r = logBlockNumber good \<and> txHash r = transactionHash good
           \<and> decodeAll parse (pre @ [good] @ post) = decodeAll parse pre @ [r] @ decodeAll parse post))
   \<and> decodeAll parse logs = List.map_filter (decodeGameResult parse) logs
   \<and> length (decodeAll parse logs) = length (filter (\<lambda>entry. decodeGameResult parse entry \<noteq> None) logs)"
proof (intro conjI impI allI)
  assume "parse (topics bad) (data bad) = ParseThrows \<or> parse (topics bad) (data bad) = ParseNull"
  then show n: "decodeGameResult parse bad = None"
    using decode_throws decode_null by blast
  then show "decodeAll parse (pre @ [bad] @ post) = decodeAll parse pre @ decodeAll parse post"
    by (simp add: decodeAll_append decodeAll_Cons)
next
  fix args
  assume "parse (topics good) (data good) = Parsed args"
  then obtain r where r: "decodeGameResult parse good = Some r" "blockNumber r = logBlockNumber good"
    "txHash r = transactionHash good"
    using decode_parsed by blast
  then show "\<exists>r. decodeGameResult parse good = Some r
           \<and> blockNumber r = logBlockNumber good \<and> txHash r = transactionHash good
           \<and> decodeAll parse (pre @ [good] @ post) = decodeAll parse pre @ [r] @ decodeAll parse post"
    by (simp add: decodeAll_append decodeAll_Cons)
next
  show "decodeAll parse logs = List.map_filter (decodeGameResult parse) logs"
    by (rule decodeAll_map_filter)
next
  show "length (decodeAll parse logs) = length (filter (\<lambda>entry. decodeGameResult parse entry \<noteq> None) logs)"
    by (simp add: decodeAll_def filterBoolean_def filter_map comp_def)
qed

theorem decode_drops_only_malformed_witness:
  "demo_parse (topics demo_broken) (data demo_broken) = ParseThrows
   \<and> decodeGameResult demo_parse demo_broken = None
   \<and> decodeAll demo_parse ([demo_first] @ [demo_broken] @ [demo_second])
        = decodeAll demo_parse [demo_first] @ decodeAll demo_parse [demo_second]
   \<and> decodeAll demo_parse demo_logs = [demo_row1, demo_row2]"
proof -
  note t = decode_drops_only_malformed [of demo_parse "demo_broken" "[demo_first]" "[demo_second]"]
  have h: "demo_parse (topics demo_broken) (data demo_broken) = ParseThrows"
    by (simp add: demo_parse_def demo_logs_def demo_first_def demo_broken_def demo_second_def)
  from t h have "decodeGameResult demo_parse demo_broken = None
      \<and> decodeAll demo_parse ([demo_first] @ [demo_broken] @ [demo_second])
        = decodeAll demo_parse [demo_first] @ decodeAll demo_parse [demo_second]"
    by blast
  then show ?thesis using h demo_decodeAll by simp
qed

subsection \<open>Aggregation\<close>

lemma count_where_filter: "count_where P xs = length (filter P xs)"
  by (simp add: count_where_def length_filter_conv_card)

lemma stats_fields:
  "wins (stats rows player) = length (filter (\<lambda>r. normalized (winningPlayer r) = normalized player) rows)"
  "losses (stats rows player) = length (filter (\<lambda>r. normalized (losingPlayer r) = normalized player) rows)"
  "total (stats rows player) = wins (stats rows player) + losses (stats rows player)"
  "winrate (stats rows player) =
     (if wins (stats rows player) + losses (stats rows player) = 0 then 0
      else real (wins (stats rows player)) / real (wins (stats rows player) + losses (stats rows player)))"
  by (simp_all add: stats_def Let_def)

lemma winrate_bounds: "0 \<le> winrate (stats rows player) \<and> winrate (stats rows player) \<le> 1"
  by (simp add: stats_fields(4) del: of_nat_add)

lemma lowerChar_values:
  "map lowerChar ''ABCDEFGHIJKLMNOPQRSTUVWXYZ'' = ''abcdefghijklmnopqrstuvwxyz''"
  "map lowerChar ''abcdefghijklmnopqrstuvwxyz'' = ''abcdefghijklmnopqrstuvwxyz''"
  "map lowerChar '' -_0123456789'' = '' -_0123456789''"
  by (simp_all add: lowerChar_def char_of_def bit_0)

lemma demo_normalize:
  "normalized ''Alice'' = ''alice''" "normalized ''ALICE'' = ''alice''" "normalized '' alice  '' = ''alice''"
  "normalized ''Bob'' = ''bob''" "normalized '' bob '' = ''bob''" "normalized ''Carol'' = ''carol''"
  "normalized ''dave'' = ''dave''" "normalized ''alice'' = ''alice''"
  by (simp_all add: normalized_def trim_def toLowerCase_def isWhiteSpace_def lowerChar_def
      char_of_def bit_0)

lemma demo_stats:
  "stats demo_matches ''alice'' = \<lparr>wins = 2, losses = 1, total = 3, winrate = 2 / 3\<rparr>"
  "stats demo_matches ''dave'' = \<lparr>wins = 0, losses = 0, total = 0, winrate = 0\<rparr>"
  by (simp_all add: stats_def demo_matches_def demo_match_def demo_normalize Let_def)

text \<open>
  Claim C4. \<open>wins\<close> is the number of records whose trimmed, lower-cased winner equals
  the trimmed, lower-cased player name, \<open>losses\<close> the same on the loser, \<open>total\<close> their
  sum, and \<open>winrate\<close> is \<open>wins / (wins + losses)\<close>, or \<open>0\<close> when \<open>wins + losses = 0\<close>; it
  always lies between \<open>0\<close> and \<open>1\<close>. The division is the exact one.
\<close>

theorem stats_counts:
  "wins (stats rows player) = count_where (\<lambda>r. normalized (winningPlayer r) = normalized player) rows
   \<and> losses (stats rows player) = count_where (\<lambda>r. normalized (losingPlayer r) = normalized player) rows
   \<and> total (stats rows player) = wins (stats rows player) + losses (stats rows player)
   \<and> winrate (stats rows player) =
        (if wins (stats rows player) + losses (stats rows player) = 0 then 0
         else real (wins (stats rows player)) / real (wins (stats rows player) + losses (stats rows player)))
   \<and> 0 \<le> winrate (stats rows player) \<and> winrate (stats rows player) \<le> 1"
  using stats_fields [of rows player] winrate_bounds [of rows player]
  by (simp only: count_where_filter)

theorem stats_counts_witness:
  "stats demo_matches ''alice'' = \<lparr>wins = 2, losses = 1, total = 3, winrate = 2 / 3\<rparr>
   \<and> count_where (\<lambda>r. normalized (winningPlayer r) = normalized ''alice'') demo_matches = 2
   \<and> count_where (\<lambda>r. normalized (losingPlayer r) = normalized ''alice'') demo_matches = 1
   \<and> stats demo_matches ''dave'' = \<lparr>wins = 0, losses = 0, total = 0, winrate = 0\<rparr>
   \<and> winrate (stats demo_matches ''dave'') = 0"
  using stats_counts [of demo_matches "''alice''"] stats_counts [of demo_matches "''dave''"]
  by (simp add: demo_stats)

text \<open>
  Claim C10. A record whose winner and loser both normalise to the player's name adds
  one to \<open>wins\<close> and one to \<open>losses\<close>, so two to \<open>total\<close>, and appears once in the
  player's match view, as a win against the record's loser, who is the player.
\<close>

theorem self_match_counted_twice:
  "normalized (winningPlayer r) = normalized player \<and> normalized (losingPlayer r) = normalized player \<longrightarrow>
     wins (stats (pre @ [r] @ post) player) = wins (stats (pre @ post) player) + 1
     \<and> losses (stats (pre @ [r] @ post) player) = losses (stats (pre @ post) player) + 1
     \<and> total (stats (pre @ [r] @ post) player) = total (stats (pre @ post) player) + 2
     \<and> filtered (pre @ [r] @ post) player =
          filtered pre player @ [row.extend r \<lparr>result = W, opponent = losingPlayer r\<rparr>] @ filtered post player
     \<and> normalized (opponent (row.extend r \<lparr>result = W, opponent = losingPlayer r\<rparr>)) = normalized player"
  by (simp add: stats_def filtered_def Let_def row.defs)

theorem self_match_counted_twice_witness:
  "normalized (winningPlayer (demo_match ''Alice'' '' alice  '')) = normalized ''ALICE''
   \<and> normalized (losingPlayer (demo_match ''Alice'' '' alice  '')) = normalized ''ALICE''
   \<and> wins (stats (demo_matches @ [demo_match ''Alice'' '' alice  ''] @ []) ''ALICE'') = 3
   \<and> losses (stats (demo_matches @ [demo_match ''Alice'' '' alice  ''] @ []) ''ALICE'') = 2
   \<and> total (stats (demo_matches @ [demo_match ''Alice'' '' alice  ''] @ []) ''ALICE'') = 5
   \<and> length (filtered (demo_matches @ [demo_match ''Alice'' '' alice  ''] @ []) ''ALICE'') = 4
   \<and> map result (filtered [demo_match ''Alice'' '' alice  ''] ''ALICE'') = [W]
   \<and> map opponent (filtered [demo_match ''Alice'' '' alice  ''] ''ALICE'') = ['' alice  '']"
proof -
  note t = self_match_counted_twice [of "demo_match ''Alice'' '' alice  ''" "''ALICE''" demo_matches "[]"]
  have h: "normalized (winningPlayer (demo_match ''Alice'' '' alice  '')) = normalized ''ALICE''"
    "normalized (losingPlayer (demo_match ''Alice'' '' alice  '')) = normalized ''ALICE''"
    by (simp_all add: demo_match_def demo_normalize)
  have s: "stats demo_matches ''ALICE'' = \<lparr>wins = 2, losses = 1, total = 3, winrate = 2 / 3\<rparr>"
    by (simp add: stats_def demo_matches_def demo_match_def demo_normalize Let_def)
  have f: "length (filtered demo_matches ''ALICE'') = 3"
    by (simp add: filtered_def demo_matches_def demo_match_def demo_normalize Let_def)
  from t h have "wins (stats (demo_matches @ [demo_match ''Alice'' '' alice  ''] @ []) ''ALICE'')
        = wins (stats (demo_matches @ []) ''ALICE'') + 1
     \<and> losses (stats (demo_matches @ [demo_match ''Alice'' '' alice  ''] @ []) ''ALICE'')
        = losses (stats (demo_matches @ []) ''ALICE'') + 1
     \<and> total (stats (demo_matches @ [demo_match ''Alice'' '' alice  ''] @ []) ''ALICE'')
        = total (stats (demo_matches @ []) ''ALICE'') + 2
     \<and> filtered (demo_matches @ [demo_match ''Alice'' '' alice  ''] @ []) ''ALICE'' =
          filtered demo_matches ''ALICE''
          @ [row.extend (demo_match ''Alice'' '' alice  '') \<lparr>result = W, opponent = losingPlayer (demo_match ''Alice'' '' alice  '')\<rparr>]
          @ filtered [] ''ALICE''"
    by blast
  moreover have "map result (filtered [demo_match ''Alice'' '' alice  ''] ''ALICE'') = [W]"
    "map opponent (filtered [demo_match ''Alice'' '' alice  ''] ''ALICE'') = ['' alice  '']"
    using h by (simp_all add: filtered_def Let_def row.defs demo_match_def)
  ultimately show ?thesis using h s f by (simp add: filtered_def)
qed

subsection \<open>The retrying client\<close>

lemma find_None_list_all: "find P xs = None \<longleftrightarrow> list_all (\<lambda>x. \<not> P x) xs"
  by (induction xs) auto

lemma rpc_attempt_Inr:
  "rpc_attempt outcome = Inr j \<longleftrightarrow>
     (\<exists>status. outcome = Response status (Some j) \<and> status \<noteq> 429
        \<and> \<not> (500 \<le> status \<and> status < 600) \<and> no_error j)"
proof (cases outcome)
  case FetchThrows
  then show ?thesis by (simp add: rpc_attempt_def)
next
  case (Response status body)
  show ?thesis
  proof (cases body)
    case None
    then show ?thesis using Response by (auto simp: rpc_attempt_def)
  next
    case (Some j')
    show ?thesis
    proof (cases "status = 429 \<or> (500 \<le> status \<and> status < 600)")
      case True
      then show ?thesis using Response Some by (auto simp: rpc_attempt_def res_ok_def)
    next
      case False
      then show ?thesis using Response Some
        by (cases j')
          (auto simp: rpc_attempt_def no_error_def find_None_list_all [symmetric] split: option.splits)
    qed
  qed
qed

lemma rpc_attempt_fails:
  "rpc_attempt FetchThrows = Inl FetchFailed"
  "rpc_attempt (Response 429 body) = Inl (RpcHttp 429)"
  "500 \<le> status \<Longrightarrow> status < 600 \<Longrightarrow> rpc_attempt (Response status body) = Inl (RpcHttp status)"
  "isl (rpc_attempt (Response status None))"
  "\<not> no_error j \<Longrightarrow> isl (rpc_attempt (Response status (Some j)))"
proof -
  show "rpc_attempt FetchThrows = Inl FetchFailed" by (simp add: rpc_attempt_def)
  show "rpc_attempt (Response 429 body) = Inl (RpcHttp 429)" by (simp add: rpc_attempt_def res_ok_def)
  show "500 \<le> status \<Longrightarrow> status < 600 \<Longrightarrow> rpc_attempt (Response status body) = Inl (RpcHttp status)"
    by (simp add: rpc_attempt_def res_ok_def)
  show "isl (rpc_attempt (Response status None))" by (simp add: rpc_attempt_def)
  show "isl (rpc_attempt (Response status (Some j)))" if bad: "\<not> no_error j"
  proof (cases "rpc_attempt (Response status (Some j))")
    case (Inl e)
    then show ?thesis by simp
  next
    case (Inr j')
    from rpc_attempt_Inr [THEN iffD1, OF Inr]
    obtain st where "Response status (Some j) = Response st (Some j')" "no_error j'"
      by blast
    then show ?thesis using bad by simp
  qed
qed

lemma rpc_loop_success:
  "rpc_loop fetch attempts i lastErr = (Inr j, n) \<Longrightarrow>
     i < n \<and> n \<le> attempts \<and> rpc_attempt (fetch (n - 1)) = Inr j
     \<and> (\<forall>k. i \<le> k \<and> k < n - 1 \<longrightarrow> isl (rpc_attempt (fetch k)))"
proof (induction fetch attempts i lastErr rule: rpc_loop.induct)
  case (1 fetch attempts i lastErr)
  have lt: "i < attempts"
    using "1.prems" by (subst (asm) rpc_loop.simps) (auto split: if_splits)
  show ?case
  proof (cases "rpc_attempt (fetch i)")
    case (Inr j')
    then have "(Inr j', Suc i) = (Inr j, n)"
      using "1.prems" lt by (subst (asm) rpc_loop.simps) simp
    then show ?thesis using Inr lt by auto
  next
    case (Inl e)
    then have "rpc_loop fetch attempts (Suc i) (Some e) = (Inr j, n)"
      using "1.prems" lt by (subst (asm) rpc_loop.simps) simp
    then have ih: "Suc i < n \<and> n \<le> attempts \<and> rpc_attempt (fetch (n - 1)) = Inr j
       \<and> (\<forall>k. Suc i \<le> k \<and> k < n - 1 \<longrightarrow> isl (rpc_attempt (fetch k)))"
      using "1.IH" [OF lt Inl] by simp
    have "\<forall>k. i \<le> k \<and> k < n - 1 \<longrightarrow> isl (rpc_attempt (fetch k))"
    proof (intro allI impI)
      fix k assume k: "i \<le> k \<and> k < n - 1"
      show "isl (rpc_attempt (fetch k))"
      proof (cases "k = i")
        case True
        then show ?thesis using Inl by simp
      next
        case False
        then show ?thesis using ih k by simp
      qed
    qed
    then show ?thesis using ih by simp
  qed
qed

lemma rpc_loop_step:
  "i < attempts \<Longrightarrow> rpc_attempt (fetch i) = Inl e \<Longrightarrow>
     rpc_loop fetch attempts i lastErr = rpc_loop fetch attempts (Suc i) (Some e)"
  "i < attempts \<Longrightarrow> rpc_attempt (fetch i) = Inr j \<Longrightarrow>
     rpc_loop fetch attempts i lastErr = (Inr j, Suc i)"
  "\<not> i < attempts \<Longrightarrow>
     rpc_loop fetch attempts i lastErr =
       (Inl (case lastErr of Some e \<Rightarrow> e | None \<Rightarrow> RpcFailedAfterRetries), i)"
  by (subst rpc_loop.simps, simp)+

lemma rpc_loop_count_ge: "i \<le> snd (rpc_loop fetch attempts i lastErr)"
proof (induction fetch attempts i lastErr rule: rpc_loop.induct)
  case (1 fetch attempts i lastErr)
  show ?case
  proof (cases "i < attempts")
    case False
    then show ?thesis by (simp add: rpc_loop_step(3))
  next
    case True
    show ?thesis
    proof (cases "rpc_attempt (fetch i)")
      case (Inl e)
      then show ?thesis using "1.IH" [OF True Inl] True by (simp add: rpc_loop_step(1))
    next
      case (Inr j)
      then show ?thesis using True by (simp add: rpc_loop_step(2))
    qed
  qed
qed

lemma rpc_loop_retries:
  "i \<le> m \<Longrightarrow> m < attempts \<Longrightarrow> (\<forall>k. i \<le> k \<and> k < m \<longrightarrow> isl (rpc_attempt (fetch k))) \<Longrightarrow>
     m < snd (rpc_loop fetch attempts i lastErr)"
proof (induction fetch attempts i lastErr rule: rpc_loop.induct)
  case (1 fetch attempts i lastErr)
  have lt: "i < attempts" using "1.prems" by simp
  show ?case
  proof (cases "rpc_attempt (fetch i)")
    case (Inr j)
    have "\<not> i < m"
    proof
      assume "i < m"
      then have "isl (rpc_attempt (fetch i))" using "1.prems"(3) by simp
      then show False using Inr by simp
    qed
    then have "i = m" using "1.prems"(1) by simp
    then show ?thesis using Inr lt by (simp add: rpc_loop_step(2))
  next
    case (Inl e)
    show ?thesis
    proof (cases "i = m")
      case True
      have "Suc i \<le> snd (rpc_loop fetch attempts (Suc i) (Some e))"
        by (rule rpc_loop_count_ge)
      then show ?thesis using True Inl lt by (simp add: rpc_loop_step(1))
    next
      case False
      then have "Suc i \<le> m" using "1.prems"(1) by simp
      moreover have "\<forall>k. Suc i \<le> k \<and> k < m \<longrightarrow> isl (rpc_attempt (fetch k))"
        using "1.prems"(3) by simp
      ultimately have "m < snd (rpc_loop fetch attempts (Suc i) (Some e))"
        using "1.IH" [OF lt Inl] "1.prems"(2) by simp
      then show ?thesis using Inl lt by (simp add: rpc_loop_step(1))
    qed
  qed
qed

lemma rpc_loop_exhausted:
  "i < attempts \<Longrightarrow> (\<forall>k. i \<le> k \<and> k < attempts \<longrightarrow> isl (rpc_attempt (fetch k))) \<Longrightarrow>
     rpc_loop fetch attempts i lastErr = (Inl (projl (rpc_attempt (fetch (attempts - 1)))), attempts)"
proof (induction fetch attempts i lastErr rule: rpc_loop.induct)
  case (1 fetch attempts i lastErr)
  from "1.prems" obtain e where e: "rpc_attempt (fetch i) = Inl e"
    by (cases "rpc_attempt (fetch i)") auto
  show ?case
  proof (cases "Suc i < attempts")
    case True
    then show ?thesis
      using "1.IH" [OF "1.prems"(1) e] "1.prems" e by (simp add: rpc_loop_step(1))
  next
    case False
    then have "attempts = Suc i" using "1.prems"(1) by simp
    then show ?thesis
      using e by (simp add: rpc_loop_step(1) rpc_loop_step(3))
  qed
qed

lemma flaky_attempts:
  "rpc_attempt (flaky_fetch 0) = Inl (RpcHttp 429)"
  "rpc_attempt (flaky_fetch 1) = Inl (RpcHttp 503)"
  "rpc_attempt (flaky_fetch 2) = Inl FetchFailed"
  "rpc_attempt (flaky_fetch 3) = Inl (RpcBatchError flaky_bad)"
  "rpc_attempt (flaky_fetch 4) = Inr flaky_good"
  by (simp_all add: rpc_attempt_def flaky_fetch_def flaky_good_def flaky_bad_def has_error_def res_ok_def)

lemma flaky_attempts_Suc:
  "rpc_attempt (flaky_fetch (Suc 0)) = Inl (RpcHttp 503)"
  "rpc_attempt (flaky_fetch (Suc (Suc 0))) = Inl FetchFailed"
  "rpc_attempt (flaky_fetch (Suc (Suc (Suc 0)))) = Inl (RpcBatchError flaky_bad)"
  "rpc_attempt (flaky_fetch (Suc (Suc (Suc (Suc 0))))) = Inr flaky_good"
  using flaky_attempts by (simp_all add: numeral_eq_Suc)

lemma flaky_rpc:
  "rpc flaky_fetch 5 = (Inr flaky_good, 5)"
  "rpc flaky_fetch 4 = (Inl (RpcBatchError flaky_bad), 4)"
  by (simp_all add: rpc_def rpc_loop.simps flaky_attempts flaky_attempts_Suc)

text \<open>
  Claim C5, as the specification states it, fails on the code: a response is returned as
  a success with the status \<open>404\<close>, which is not a 2xx status, because only \<open>429\<close> and
  \<open>5xx\<close> are thrown on; and a response that carries an \<open>error\<close> field with the value
  \<open>null\<close> is returned as a success, because the field is tested for truthiness.
\<close>

theorem rpc_accepts_non_2xx_and_null_error:
  "rpc fetch_not_found 5 = (Inr (JObj [(''message'', JStr ''Not Found'')]), 1)
   \<and> \<not> res_ok 404
   \<and> rpc fetch_error_null 5 =
       (Inr (JObj [(''jsonrpc'', JStr ''2.0''), (''id'', JNum 1),
                   (''result'', JStr ''0x10''), (''error'', JNull)]), 1)
   \<and> property ''error'' (JObj [(''jsonrpc'', JStr ''2.0''), (''id'', JNum 1),
                   (''result'', JStr ''0x10''), (''error'', JNull)]) = Some JNull"
  by (simp add: rpc_def rpc_loop.simps rpc_attempt_def fetch_not_found_def fetch_error_null_def
      has_error_def res_ok_def)

text \<open>
  Claim C5, amended. The call returns a response as a success only when some attempt got
  a response whose status is neither \<open>429\<close> nor \<open>5xx\<close>, whose body parsed as JSON, and
  whose JSON carries no truthy error (a single response: \<open>j.error\<close> is not truthy; a
  batch: no element with a truthy \<open>error\<close>); it is the first such attempt. A network
  exception, the status \<open>429\<close>, a status \<open>5xx\<close>, a body that is not JSON and a truthy
  error each make the attempt fail; after failed attempts the next attempt is made as
  long as attempts remain, and when all attempts fail the call throws the error of the
  last one.
\<close>

theorem rpc_returns_only_error_free:
  "(fst (rpc fetch attempts) = Inr j \<longrightarrow>
      (\<exists>i status. i < attempts \<and> snd (rpc fetch attempts) = Suc i
         \<and> fetch i = Response status (Some j)
         \<and> status \<noteq> 429 \<and> \<not> (500 \<le> status \<and> status < 600) \<and> no_error j
         \<and> (\<forall>k<i. isl (rpc_attempt (fetch k)))))
   \<and> rpc_attempt FetchThrows = Inl FetchFailed
   \<and> rpc_attempt (Response 429 body) = Inl (RpcHttp 429)
   \<and> (500 \<le> status' \<and> status' < 600 \<longrightarrow> rpc_attempt (Response status' body) = Inl (RpcHttp status'))
   \<and> isl (rpc_attempt (Response status' None))
   \<and> (\<not> no_error j' \<longrightarrow> isl (rpc_attempt (Response status' (Some j'))))
   \<and> (m < attempts \<and> (\<forall>k<m. isl (rpc_attempt (fetch k))) \<longrightarrow> m < snd (rpc fetch attempts))
   \<and> (0 < attempts \<and> (\<forall>k<attempts. isl (rpc_attempt (fetch k))) \<longrightarrow>
        rpc fetch attempts = (Inl (projl (rpc_attempt (fetch (attempts - 1)))), attempts))"
proof (intro conjI impI)
  assume ok: "fst (rpc fetch attempts) = Inr j"
  obtain n where n: "rpc_loop fetch attempts 0 None = (Inr j, n)"
    using ok by (cases "rpc_loop fetch attempts 0 None") (simp add: rpc_def)
  from rpc_loop_success [OF n]
  have s: "0 < n" "n \<le> attempts" "rpc_attempt (fetch (n - 1)) = Inr j"
    "\<forall>k. 0 \<le> k \<and> k < n - 1 \<longrightarrow> isl (rpc_attempt (fetch k))"
    by simp_all
  from rpc_attempt_Inr [THEN iffD1, OF s(3)]
  obtain status where st: "fetch (n - 1) = Response status (Some j)" "status \<noteq> 429"
    "\<not> (500 \<le> status \<and> status < 600)" "no_error j"
    by blast
  have "n - 1 < attempts" "snd (rpc fetch attempts) = Suc (n - 1)"
    using s(1) s(2) n by (simp_all add: rpc_def)
  moreover have "\<forall>k<n - 1. isl (rpc_attempt (fetch k))" using s(4) by simp
  ultimately show "\<exists>i status. i < attempts \<and> snd (rpc fetch attempts) = Suc i
         \<and> fetch i = Response status (Some j)
         \<and> status \<noteq> 429 \<and> \<not> (500 \<le> status \<and> status < 600) \<and> no_error j
         \<and> (\<forall>k<i. isl (rpc_attempt (fetch k)))"
    using st by blast
next
  show "rpc_attempt FetchThrows = Inl FetchFailed" by (rule rpc_attempt_fails(1))
next
  show "rpc_attempt (Response 429 body) = Inl (RpcHttp 429)" by (rule rpc_attempt_fails(2))
next
  assume "500 \<le> status' \<and> status' < 600"
  then show "rpc_attempt (Response status' body) = Inl (RpcHttp status')"
    by (simp add: rpc_attempt_fails(3))
next
  show "isl (rpc_attempt (Response status' None))" by (rule rpc_attempt_fails(4))
next
  assume "\<not> no_error j'"
  then show "isl (rpc_attempt (Response status' (Some j')))" by (rule rpc_attempt_fails(5))
next
  assume "m < attempts \<and> (\<forall>k<m. isl (rpc_attempt (fetch k)))"
  then show "m < snd (rpc fetch attempts)"
    using rpc_loop_retries [of 0 m attempts fetch None] by (simp add: rpc_def)
next
  assume "0 < attempts \<and> (\<forall>k<attempts. isl (rpc_attempt (fetch k)))"
  then show "rpc fetch attempts = (Inl (projl (rpc_attempt (fetch (attempts - 1)))), attempts)"
    using rpc_loop_exhausted [of 0 attempts fetch None] by (simp add: rpc_def)
qed

theorem rpc_returns_only_error_free_witness:
  "fst (rpc flaky_fetch 5) = Inr flaky_good
   \<and> snd (rpc flaky_fetch 5) = 5
   \<and> flaky_fetch 4 = Response 200 (Some flaky_good)
   \<and> no_error flaky_good
   \<and> rpc_attempt (flaky_fetch 0) = Inl (RpcHttp 429)
   \<and> rpc_attempt (flaky_fetch 1) = Inl (RpcHttp 503)
   \<and> rpc_attempt (flaky_fetch 2) = Inl FetchFailed
   \<and> \<not> no_error (JArr [JObj [(''id'', JNum 100), (''result'', JArr [])], flaky_bad])
   \<and> rpc_attempt (flaky_fetch 3) = Inl (RpcBatchError flaky_bad)
   \<and> rpc flaky_fetch 4 = (Inl (RpcBatchError flaky_bad), 4)"
proof -
  note t = rpc_returns_only_error_free [of flaky_fetch 5 flaky_good]
  have ok: "fst (rpc flaky_fetch 5) = Inr flaky_good" by (simp add: flaky_rpc)
  with t obtain i status where i: "snd (rpc flaky_fetch 5) = Suc i"
    "flaky_fetch i = Response status (Some flaky_good)" "no_error flaky_good"
    by blast
  then have "i = 4" by (simp add: flaky_rpc)
  then have "flaky_fetch 4 = Response 200 (Some flaky_good)"
    using i(2) by (simp add: flaky_fetch_def)
  moreover have "\<not> no_error (JArr [JObj [(''id'', JNum 100), (''result'', JArr [])], flaky_bad])"
    by (simp add: no_error_def has_error_def flaky_bad_def)
  ultimately show ?thesis using i(3) ok flaky_attempts by (simp add: flaky_rpc)
qed

subsection \<open>The order of the rows\<close>

lemma demo_resolve_all:
  "resolve search demo_env \<lparr>startTs = None, endTs = None\<rparr> = Some (Inr (0, 150000))"
  by (simp add: resolve_def demo_ends)

lemma demo_ranges_exact:
  "exact_ranges 0 150000 = [\<lparr>from = 0, to = 99999\<rparr>, \<lparr>from = 100000, to = 150000\<rparr>]"
  by (simp add: exact_ranges_def exact_ranges_loop.simps MAX_SPAN_def)

lemma demo_ranges:
  "buildRanges 0 150000 = Some [\<lparr>from = 0, to = 99999\<rparr>, \<lparr>from = 100000, to = 150000\<rparr>]"
  by (simp add: buildRanges_exact demo_ranges_exact two53_def)

lemma demo_batch:
  "batch_of 0 [\<lparr>from = 0, to = 99999\<rparr>, \<lparr>from = 100000, to = 150000\<rparr>] =
     [\<lparr>req_id = 100, req_fromBlock = 0, req_toBlock = 99999\<rparr>,
      \<lparr>req_id = 101, req_fromBlock = 100000, req_toBlock = 150000\<rparr>]"
  by (simp add: batch_of_def)

lemma demo_response:
  "eth_getLogs demo_env
     [\<lparr>req_id = 100, req_fromBlock = 0, req_toBlock = 99999\<rparr>,
      \<lparr>req_id = 101, req_fromBlock = 100000, req_toBlock = 150000\<rparr>] =
   Inr [Some [demo_second], Some [demo_first, demo_broken]]"
  by (simp add: demo_env_def demo_logs_def demo_first_def demo_broken_def demo_second_def)

lemma demo_fetch:
  "0 < b \<Longrightarrow> 2 \<le> b \<Longrightarrow>
     fetchLoop demo_env b [\<lparr>from = 0, to = 99999\<rparr>, \<lparr>from = 100000, to = 150000\<rparr>] 0 [] [] =
     (Inr [demo_second, demo_first, demo_broken],
      [[\<lparr>req_id = 100, req_fromBlock = 0, req_toBlock = 99999\<rparr>,
        \<lparr>req_id = 101, req_fromBlock = 100000, req_toBlock = 150000\<rparr>]])"
  by (simp add: fetchLoop.simps [of _ _ _ 0] fetchLoop.simps [of _ b _ b] demo_batch demo_response item_logs_def)

lemma demo_dedup_fetched:
  "dedup [demo_second, demo_first, demo_broken] = [demo_second, demo_first, demo_broken]"
  using demo_keys(1) by (intro dedup_fixed) (auto simp: demo_logs_def)

lemma demo_decode_fetched:
  "decodeAll demo_parse [demo_second, demo_first, demo_broken] = [demo_row2, demo_row1]"
  by (simp add: decodeAll_Cons decodeAll_Nil demo_decode)

lemma demo_parseLog: "parseLog demo_env = demo_parse"
  by (simp add: demo_env_def)

lemma handleRun_rows_sorted:
  "handleRun env req batchSize = Some res \<Longrightarrow> sorted (map blockNumber (ui_rows (fst res)))"
  by (auto simp: handleRun_def split: option.splits sum.splits prod.splits if_splits)

lemma handleRun_rows_stable:
  assumes "resolve (\<lambda>s. s \<noteq> 0) env req = Some (Inr (fromBlock, toBlock))" "\<not> toBlock < fromBlock"
    and "fetchLogsBatched env fromBlock toBlock (clampBatchSize batchSize) = Some (Inr logs, sent)"
  shows "map_option (\<lambda>res. filter (\<lambda>r. blockNumber r = k) (ui_rows (fst res))) (handleRun env req batchSize)
       = Some (filter (\<lambda>r. blockNumber r = k) (decodeAll (parseLog env) logs))"
  using assms by (simp add: handleRun_def sort_key_stable)

text \<open>
  Claim C6 holds for the page, by the two lemmas above, and fails for the server route,
  which never sorts: on the concrete node, whose batch response lists the items in
  reverse order, \<open>handler\<close> returns the row of block \<open>120000\<close> before the row of block
  \<open>5\<close>, where \<open>handleRun\<close> leaves them in ascending order.
\<close>

theorem handler_rows_in_response_order:
  "map_option fst (handler demo_env \<lparr>startTs = None, endTs = None\<rparr>)
      = Some (RespOk [demo_row2, demo_row1])
   \<and> map blockNumber [demo_row2, demo_row1] = [120000, 5]
   \<and> \<not> sorted (map blockNumber [demo_row2, demo_row1])
   \<and> map_option (\<lambda>res. ui_rows (fst res)) (handleRun demo_env \<lparr>startTs = None, endTs = None\<rparr> 2)
      = Some [demo_row1, demo_row2]"
  by (simp add: handler_def handleRun_def demo_resolve_all BATCH_def demo_ranges demo_fetch fetchLogsBatched_def
      clampBatchSize_def demo_dedup_fetched demo_decode_fetched demo_parseLog demo_row1_def demo_row2_def)

end
